theory Spec2Isabelle
  imports Main "HOL-Library.Word" "HOL-Library.Code_Target_Numeral"
begin

unbundle bit_operations_syntax

section \<open>The RNG90 driver (rng90.c, rng90.h)\<close>

text \<open>
  The driver talks to the RNG90 over a two-wire bus. It is written for an 8-bit AVR
  target (\<^verbatim>\<open>RNG90_HAL_PLATFORM avr0\<close>): \<^verbatim>\<open>unsigned char\<close> is 8 bits wide,
  \<^verbatim>\<open>unsigned int\<close> 16 bits, \<^verbatim>\<open>unsigned long\<close> 32 bits, and a struct has no
  padding. Bytes are \<open>8 word\<close>, the 16-bit fields \<open>16 word\<close>; sizes and the
  \<^verbatim>\<open>UL\<close> constants are natural numbers, with the wrap-around of
  \<^verbatim>\<open>unsigned long\<close> written out where the code subtracts.
\<close>

type_synonym byte = "8 word"

subsection \<open>Constants of rng90.h\<close>

definition RNG90_ADDRESS :: byte where "RNG90_ADDRESS = 0x40"
definition RNG90_EXECUTE_COMMAND :: byte where "RNG90_EXECUTE_COMMAND = 0x03"

definition RNG90_OPERATION_INFO :: byte where "RNG90_OPERATION_INFO = 0x30"
definition RNG90_OPERATION_INFO_PARAM1 :: byte where "RNG90_OPERATION_INFO_PARAM1 = 0x00"
definition RNG90_OPERATION_INFO_PARAM2 :: "16 word" where "RNG90_OPERATION_INFO_PARAM2 = 0x0000"

definition RNG90_OPERATION_RANDOM :: byte where "RNG90_OPERATION_RANDOM = 0x16"
definition RNG90_OPERATION_RANDOM_PARAM1 :: byte where "RNG90_OPERATION_RANDOM_PARAM1 = 0x00"
definition RNG90_OPERATION_RANDOM_PARAM2 :: "16 word" where "RNG90_OPERATION_RANDOM_PARAM2 = 0x0000"
definition RNG90_OPERATION_RANDOM_DATA_SIZE :: nat where "RNG90_OPERATION_RANDOM_DATA_SIZE = 20"
definition RNG90_OPERATION_RANDOM_DATA :: byte where "RNG90_OPERATION_RANDOM_DATA = 0x00"
definition RNG90_OPERATION_RANDOM_RNG_SIZE :: nat where "RNG90_OPERATION_RANDOM_RNG_SIZE = 32"

definition RNG90_OPERATION_READ :: byte where "RNG90_OPERATION_READ = 0x02"
definition RNG90_OPERATION_READ_PARAM1 :: byte where "RNG90_OPERATION_READ_PARAM1 = 0x01"
definition RNG90_OPERATION_READ_PARAM2 :: "16 word" where "RNG90_OPERATION_READ_PARAM2 = 0x0000"
definition RNG90_OPERATION_READ_SERIAL_SIZE :: nat where "RNG90_OPERATION_READ_SERIAL_SIZE = 8"

definition RNG90_OPERATION_SELF_TEST :: byte where "RNG90_OPERATION_SELF_TEST = 0x77"
definition RNG90_OPERATION_SELF_TEST_PARAM2 :: "16 word" where "RNG90_OPERATION_SELF_TEST_PARAM2 = 0x0000"

definition RNG90_INFO_EXECUTION_TIME_MS :: nat where "RNG90_INFO_EXECUTION_TIME_MS = 1"
definition RNG90_RANDOM_EXECUTION_TIME_MS :: nat where "RNG90_RANDOM_EXECUTION_TIME_MS = 75"
definition RNG90_READ_EXECUTION_TIME_MS :: nat where "RNG90_READ_EXECUTION_TIME_MS = 1"
definition RNG90_SELFTEST_EXECUTION_TIME_MS :: nat where "RNG90_SELFTEST_EXECUTION_TIME_MS = 32"

definition RNG90_CRC_SIZE :: nat where "RNG90_CRC_SIZE = 2"
definition RNG90_STANDARD_FRAME_SIZE :: nat where "RNG90_STANDARD_FRAME_SIZE = 4"
definition RNG90_INFO_FRAME_SIZE :: nat where "RNG90_INFO_FRAME_SIZE = 7"
definition RNG90_NUMBER_FRAME_SIZE :: nat where "RNG90_NUMBER_FRAME_SIZE = 35"
definition RNG90_SERIAL_FRAME_SIZE :: nat where "RNG90_SERIAL_FRAME_SIZE = 19"

text \<open>
  \<^verbatim>\<open>enum RNG90_Status_t\<close> and \<^verbatim>\<open>enum RNG90_SelfTest_Status_t\<close>. The driver returns
  \<^verbatim>\<open>(RNG90_SelfTest_Status)(rng90_buffer[0])\<close>, a cast of an arbitrary byte, so a
  returned status is any value from 0 to 255 and not only an enumerator: both types are
  modelled by their numeric value, and the enumerators are named constants.
\<close>

type_synonym RNG90_Status = byte
type_synonym RNG90_SelfTest_Status = byte

definition RNG90_Status_Success :: RNG90_Status where "RNG90_Status_Success = 0x00"
definition RNG90_Status_Parse_Error :: RNG90_Status where "RNG90_Status_Parse_Error = 0x03"
definition RNG90_Status_SelfTest_Error :: RNG90_Status where "RNG90_Status_SelfTest_Error = 0x07"
definition RNG90_Status_HealthTest_Error :: RNG90_Status where "RNG90_Status_HealthTest_Error = 0x08"
definition RNG90_Status_Execution_Error :: RNG90_Status where "RNG90_Status_Execution_Error = 0x0F"
definition RNG90_Status_AfterWake_Indication :: RNG90_Status where "RNG90_Status_AfterWake_Indication = 0x11"
definition RNG90_Status_TWI_Error :: RNG90_Status where "RNG90_Status_TWI_Error = 0xF0"
definition RNG90_Status_Other_Error :: RNG90_Status where "RNG90_Status_Other_Error = 0xFF"

definition RNG90_Status_enumerators :: "RNG90_Status list" where
  "RNG90_Status_enumerators =
     [RNG90_Status_Success, RNG90_Status_Parse_Error, RNG90_Status_SelfTest_Error,
      RNG90_Status_HealthTest_Error, RNG90_Status_Execution_Error,
      RNG90_Status_AfterWake_Indication, RNG90_Status_TWI_Error, RNG90_Status_Other_Error]"

definition RNG90_SelfTest_Success :: RNG90_SelfTest_Status where "RNG90_SelfTest_Success = 0x00"
definition RNG90_SelfTest_Fail_DBRG :: RNG90_SelfTest_Status where "RNG90_SelfTest_Fail_DBRG = 0x01"
definition RNG90_SelfTest_Not_Run_DBRG :: RNG90_SelfTest_Status where "RNG90_SelfTest_Not_Run_DBRG = 0x02"
definition RNG90_SelfTest_Not_Run_SHA256 :: RNG90_SelfTest_Status where "RNG90_SelfTest_Not_Run_SHA256 = 0x10"
definition RNG90_SelfTest_Not_Run_Neither :: RNG90_SelfTest_Status where "RNG90_SelfTest_Not_Run_Neither = 0x12"
definition RNG90_SelfTest_Fail_SHA256 :: RNG90_SelfTest_Status where "RNG90_SelfTest_Fail_SHA256 = 0x20"
definition RNG90_SelfTest_Fail_DBRG_SHA256 :: RNG90_SelfTest_Status where "RNG90_SelfTest_Fail_DBRG_SHA256 = 0x21"
definition RNG90_SelfTest_Error :: RNG90_SelfTest_Status where "RNG90_SelfTest_Error = 0xFF"

datatype RNG90_Run_SelfTest =
  RNG90_Run_DRBG_SelfTest | RNG90_Run_SHA256_SelfTest | RNG90_Run_DBRG_SHA256_SelfTest

fun run_selftest_value :: "RNG90_Run_SelfTest \<Rightarrow> byte" where
  "run_selftest_value RNG90_Run_DRBG_SelfTest = 0x01"
| "run_selftest_value RNG90_Run_SHA256_SelfTest = 0x20"
| "run_selftest_value RNG90_Run_DBRG_SHA256_SelfTest = 0x21"

subsection \<open>Data structures of rng90.h\<close>

record RNG90_Info =
  RFU :: byte
  DeviceID :: byte
  SiliconID :: byte
  Revision :: byte

record RNG90_Packet =
  count :: byte
  opcode :: byte
  param1 :: byte
  param2 :: "16 word"
  crc :: "16 word"

datatype RNG90_Data_Status = RNG90_Data_Status_Valid | RNG90_Data_Status_Invalid

record RNG90_Frame =
  length_f :: byte
  status :: RNG90_Data_Status

text \<open>
  \<^verbatim>\<open>sizeof(RNG90_Packet)\<close> on the AVR target: three bytes and two 16-bit fields, 7 in all.
  The transmitter reads the packet through an \<^verbatim>\<open>unsigned char *\<close>; the first
  \<^verbatim>\<open>sizeof(RNG90_Packet) - RNG90_CRC_SIZE\<close> bytes of the object are the three byte
  fields and the two bytes of \<open>param2\<close>, low byte first (the AVR is little-endian).
\<close>

definition sizeof_RNG90_Packet :: nat where
  "sizeof_RNG90_Packet = 7"

definition packet_memory :: "RNG90_Packet \<Rightarrow> byte list" where
  "packet_memory p =
     [count p, opcode p, param1 p,
      ucast (param2 p), ucast (drop_bit 8 (param2 p)),
      ucast (crc p), ucast (drop_bit 8 (crc p))]"

subsection \<open>The external collaborators\<close>

text \<open>
  Modelled from the spec: the bus transport (\<^verbatim>\<open>twi.h\<close>), the checksum engine
  (\<^verbatim>\<open>crc16.h\<close>) and the delay (\<^verbatim>\<open>systick.h\<close>) are included by rng90.h and are not
  part of the driver's sources. Section 6 of the specification gives their interface:
  \<open>start()\<close>, \<open>stop()\<close>, \<open>address(addr, direction)\<close>, \<open>writeByte(b) -> ok|error\<close>,
  \<open>readByte(ack|nack) -> byte\<close>; \<open>init(seed)\<close>, \<open>update(byte)\<close>, \<open>result() -> u16\<close>;
  \<open>waitMs(duration)\<close>. What the device and the engine answer is a parameter of the
  model, the \<open>environment\<close>: the outcome of the k-th byte write, the byte delivered by
  the k-th byte read, and the three functions of a running 16-bit checksum. Every call
  is recorded in a trace.
\<close>

datatype TWI_Error = TWI_None | TWI_Failure
datatype TWI_Operation = TWI_Write | TWI_Read
datatype TWI_Acknowledge = TWI_ACK | TWI_NACK

datatype bus_event =
  Bus_Start
| Bus_Stop
| Bus_Address byte TWI_Operation
| Bus_Set byte
| Bus_Get TWI_Acknowledge
| Wait_ms nat

record environment =
  set_result :: "nat \<Rightarrow> TWI_Error"
  get_byte :: "nat \<Rightarrow> byte"
  crc_seed :: "16 word"
  crc_step :: "16 word \<Rightarrow> byte \<Rightarrow> 16 word"
  crc_final :: "16 word \<Rightarrow> 16 word"

text \<open>
  The driver's globals (\<open>rng90_buffer\<close>, \<open>rng90_frame\<close>), the running checksum of the
  engine, the number of bytes written and read so far, and the trace.
\<close>

record machine =
  tx_count :: nat
  rx_count :: nat
  trace :: "bus_event list"
  crc_running :: "16 word"
  rng90_buffer :: "byte list"
  rng90_frame :: RNG90_Frame

definition twi_start :: "machine \<Rightarrow> machine" where
  "twi_start s = s\<lparr>trace := trace s @ [Bus_Start]\<rparr>"

definition twi_stop :: "machine \<Rightarrow> machine" where
  "twi_stop s = s\<lparr>trace := trace s @ [Bus_Stop]\<rparr>"

definition twi_address :: "byte \<Rightarrow> TWI_Operation \<Rightarrow> machine \<Rightarrow> machine" where
  "twi_address a d s = s\<lparr>trace := trace s @ [Bus_Address a d]\<rparr>"

definition twi_set :: "environment \<Rightarrow> byte \<Rightarrow> machine \<Rightarrow> TWI_Error \<times> machine" where
  "twi_set E b s =
     (set_result E (tx_count s),
      s\<lparr>tx_count := Suc (tx_count s), trace := trace s @ [Bus_Set b]\<rparr>)"

definition twi_get :: "environment \<Rightarrow> TWI_Acknowledge \<Rightarrow> machine \<Rightarrow> byte \<times> machine" where
  "twi_get E a s =
     (get_byte E (rx_count s),
      s\<lparr>rx_count := Suc (rx_count s), trace := trace s @ [Bus_Get a]\<rparr>)"

definition crc16_init :: "environment \<Rightarrow> machine \<Rightarrow> machine" where
  "crc16_init E s = s\<lparr>crc_running := crc_seed E\<rparr>"

definition crc16_update :: "environment \<Rightarrow> byte \<Rightarrow> machine \<Rightarrow> machine" where
  "crc16_update E b s = s\<lparr>crc_running := crc_step E (crc_running s) b\<rparr>"

definition crc16_result :: "environment \<Rightarrow> machine \<Rightarrow> 16 word" where
  "crc16_result E s = crc_final E (crc_running s)"

definition systick_timer_wait_ms :: "nat \<Rightarrow> machine \<Rightarrow> machine" where
  "systick_timer_wait_ms n s = s\<lparr>trace := trace s @ [Wait_ms n]\<rparr>"

subsection \<open>Frame transmitter: rng90_write, rng90_command\<close>

text \<open>
  The loop of \<open>rng90_write\<close> over the bytes of the packet object: each byte goes through
  the checksum engine and onto the bus. The result of \<open>twi_set\<close> is dropped, as in the
  source.
\<close>

fun rng90_write_loop :: "environment \<Rightarrow> byte list \<Rightarrow> machine \<Rightarrow> machine" where
  "rng90_write_loop E [] s = s"
| "rng90_write_loop E (b # bs) s =
     rng90_write_loop E bs (snd (twi_set E b (crc16_update E b s)))"

definition rng90_write :: "environment \<Rightarrow> RNG90_Packet \<Rightarrow> machine \<Rightarrow> RNG90_Packet \<times> machine" where
  "rng90_write E packet s =
     (let packet = packet\<lparr>count := count packet + 7\<rparr>;
          s = crc16_init E s;
          s = twi_address RNG90_ADDRESS TWI_Write s;
          s = snd (twi_set E RNG90_EXECUTE_COMMAND s);
          s = rng90_write_loop E
                (take (sizeof_RNG90_Packet - RNG90_CRC_SIZE) (packet_memory packet)) s
      in (packet, s))"

definition rng90_command :: "environment \<Rightarrow> RNG90_Packet \<Rightarrow> machine \<Rightarrow> RNG90_Packet \<times> machine" where
  "rng90_command E packet s =
     (let s = twi_start s;
          (packet, s) = rng90_write E packet s;
          packet = packet\<lparr>crc := crc16_result E s\<rparr>;
          s = snd (twi_set E (ucast (0x00FF AND crc packet)) s);
          s = snd (twi_set E (ucast (0x00FF AND drop_bit 8 (crc packet))) s);
          s = twi_stop s
      in (packet, s))"

subsection \<open>Frame receiver: rng90_data\<close>

text \<open>
  A store through \<open>data\<close> outside the caller's buffer is undefined behaviour in C. The
  model stops there with a fault that names the index of the store.
\<close>

datatype fault = Buffer_Overrun nat

text \<open>
  The loop of \<open>rng90_data\<close>. The counter \<open>i\<close> is an \<^verbatim>\<open>unsigned char\<close> and wraps from
  255 to 0. The bound \<^verbatim>\<open>rng90_frame.length - RNG90_CRC_SIZE\<close> is computed in
  \<^verbatim>\<open>unsigned long\<close> (the constant is \<^verbatim>\<open>2UL\<close>), so it wraps modulo \<open>2 ^ 32\<close> when the
  length is below 2. The loop need not end, so it is a partial function: \<open>None\<close> is a
  run that never leaves the loop. After the loop the two checksum bytes are put
  together in the 16 bits of an \<^verbatim>\<open>unsigned int\<close>.
\<close>

partial_function (option) rng90_data_loop ::
  "environment \<Rightarrow> byte \<Rightarrow> byte list \<Rightarrow> machine \<Rightarrow> (fault + byte list \<times> machine) option" where
  "rng90_data_loop E i data s =
     (if unat i < (unat (length_f (rng90_frame s)) + 2 ^ 32 - RNG90_CRC_SIZE) mod 2 ^ 32 then
        (let temp = fst (twi_get E TWI_ACK s);
             s = snd (twi_get E TWI_ACK s);
             s = crc16_update E temp s
         in if i = 0 then
              rng90_data_loop E (i + 1) data
                (s\<lparr>rng90_frame := (rng90_frame s)\<lparr>length_f := temp\<rparr>\<rparr>)
            else if unat i - 1 < length data then
              rng90_data_loop E (i + 1) (data[unat i - 1 := temp]) s
            else Some (Inl (Buffer_Overrun (unat i - 1))))
      else Some (Inr (data, s)))"

declare rng90_data_loop.simps [code]

definition rng90_data ::
  "environment \<Rightarrow> byte list \<Rightarrow> machine \<Rightarrow> (fault + RNG90_Frame \<times> byte list \<times> machine) option" where
  "rng90_data E data s =
     (let s = crc16_init E s;
          s = s\<lparr>rng90_frame := (rng90_frame s)\<lparr>length_f := 1 + of_nat RNG90_CRC_SIZE\<rparr>\<rparr>;
          s = s\<lparr>rng90_frame := (rng90_frame s)\<lparr>status := RNG90_Data_Status_Invalid\<rparr>\<rparr>;
          s = twi_start s;
          s = twi_address RNG90_ADDRESS TWI_Read s
      in case rng90_data_loop E 0 data s of
           None \<Rightarrow> None
         | Some (Inl f) \<Rightarrow> Some (Inl f)
         | Some (Inr (data, s)) \<Rightarrow>
            (let temp = fst (twi_get E TWI_ACK s);
                 s = snd (twi_get E TWI_ACK s);
                 crc = (0x00FF AND ucast temp :: 16 word);
                 temp = fst (twi_get E TWI_NACK s);
                 s = snd (twi_get E TWI_NACK s);
                 crc = crc OR (0xFF00 AND push_bit 8 (ucast temp));
                 s = twi_stop s;
                 s = s\<lparr>rng90_frame := (rng90_frame s)\<lparr>status := RNG90_Data_Status_Valid\<rparr>\<rparr>;
                 s = (if crc \<noteq> crc16_result E s
                      then s\<lparr>rng90_frame := (rng90_frame s)\<lparr>status := RNG90_Data_Status_Invalid\<rparr>\<rparr>
                      else s)
             in Some (Inr (rng90_frame s, data, s))))"

subsection \<open>Operations: rng90_selftest, rng90_init, rng90_info, rng90_random, rng90_serial\<close>

text \<open>
  An operation returns \<open>None\<close> when the receive loop never ends, \<open>Some (Inl f)\<close> when a
  store leaves a buffer, and \<open>Some (Inr r)\<close> when the C function returns \<open>r\<close>. The
  pointer arguments (\<open>info\<close>, \<open>numbers\<close>, \<open>serial\<close>) are passed in and handed back with
  the result. \<open>rng90_data\<close> is always called on the global \<open>rng90_buffer\<close>; its stores
  are written back to the global.
\<close>

text \<open>The packets as the operations initialise them (the command builder).\<close>

definition rng90_selftest_packet :: "RNG90_Run_SelfTest \<Rightarrow> RNG90_Packet" where
  "rng90_selftest_packet test =
     \<lparr>count = 0, opcode = RNG90_OPERATION_SELF_TEST, param1 = run_selftest_value test,
      param2 = RNG90_OPERATION_SELF_TEST_PARAM2, crc = 0x0000\<rparr>"

definition rng90_info_packet :: RNG90_Packet where
  "rng90_info_packet =
     \<lparr>count = 0, opcode = RNG90_OPERATION_INFO, param1 = RNG90_OPERATION_INFO_PARAM1,
      param2 = RNG90_OPERATION_INFO_PARAM2, crc = 0x0000\<rparr>"

definition rng90_random_packet :: RNG90_Packet where
  "rng90_random_packet =
     \<lparr>count = of_nat RNG90_OPERATION_RANDOM_DATA_SIZE, opcode = RNG90_OPERATION_RANDOM,
      param1 = RNG90_OPERATION_RANDOM_PARAM1, param2 = RNG90_OPERATION_RANDOM_PARAM2,
      crc = 0x0000\<rparr>"

definition rng90_serial_packet :: RNG90_Packet where
  "rng90_serial_packet =
     \<lparr>count = 0, opcode = RNG90_OPERATION_READ, param1 = RNG90_OPERATION_READ_PARAM1,
      param2 = RNG90_OPERATION_READ_PARAM2, crc = 0x0000\<rparr>"

definition rng90_selftest ::
  "environment \<Rightarrow> RNG90_Run_SelfTest \<Rightarrow> machine \<Rightarrow> (fault + RNG90_SelfTest_Status \<times> machine) option" where
  "rng90_selftest E test s =
     (let packet = rng90_selftest_packet test;
          s = snd (rng90_command E packet s);
          s = systick_timer_wait_ms RNG90_SELFTEST_EXECUTION_TIME_MS s
      in case rng90_data E (rng90_buffer s) s of
           None \<Rightarrow> None
         | Some (Inl f) \<Rightarrow> Some (Inl f)
         | Some (Inr (frame, data, s)) \<Rightarrow>
            (let s = s\<lparr>rng90_buffer := data\<rparr>
             in if unat (length_f frame) = RNG90_STANDARD_FRAME_SIZE
                   \<and> status frame = RNG90_Data_Status_Valid
                then Some (Inr (rng90_buffer s ! 0, s))
                else Some (Inr (RNG90_SelfTest_Error, s))))"

definition rng90_init :: "environment \<Rightarrow> machine \<Rightarrow> (fault + RNG90_Status \<times> machine) option" where
  "rng90_init E s =
     (case rng90_selftest E RNG90_Run_DRBG_SelfTest s of
        None \<Rightarrow> None
      | Some (Inl f) \<Rightarrow> Some (Inl f)
      | Some (Inr (r, s)) \<Rightarrow>
          if r \<noteq> RNG90_SelfTest_Success
          then Some (Inr (RNG90_Status_SelfTest_Error, s))
          else Some (Inr (RNG90_Status_Success, s)))"

definition rng90_info ::
  "environment \<Rightarrow> RNG90_Info \<Rightarrow> machine \<Rightarrow> (fault + RNG90_Status \<times> RNG90_Info \<times> machine) option" where
  "rng90_info E info s =
     (let packet = rng90_info_packet;
          s = snd (rng90_command E packet s);
          s = systick_timer_wait_ms RNG90_INFO_EXECUTION_TIME_MS s
      in case rng90_data E (rng90_buffer s) s of
           None \<Rightarrow> None
         | Some (Inl f) \<Rightarrow> Some (Inl f)
         | Some (Inr (frame, data, s)) \<Rightarrow>
            (let s = s\<lparr>rng90_buffer := data\<rparr>
             in if unat (length_f frame) = RNG90_STANDARD_FRAME_SIZE
                   \<and> status frame = RNG90_Data_Status_Valid
                then Some (Inr (rng90_buffer s ! 0, info, s))
                else if unat (length_f frame) = RNG90_INFO_FRAME_SIZE
                   \<and> status frame = RNG90_Data_Status_Valid
                then Some (Inr (RNG90_Status_Success,
                       info\<lparr>RFU := rng90_buffer s ! 0, DeviceID := rng90_buffer s ! 1,
                            SiliconID := rng90_buffer s ! 2, Revision := rng90_buffer s ! 3\<rparr>,
                       s))
                else Some (Inr (RNG90_Status_Other_Error, info, s))))"

text \<open>
  The filler loop of \<open>rng90_random\<close> (lines 236 to 244), with the number of rounds
  left: \<open>Inl\<close> is the early return after a failed write, the bus stopped.
\<close>

fun rng90_random_payload :: "environment \<Rightarrow> nat \<Rightarrow> machine \<Rightarrow> machine + machine" where
  "rng90_random_payload E 0 s = Inr s"
| "rng90_random_payload E (Suc n) s =
     (if fst (twi_set E RNG90_OPERATION_RANDOM_DATA s) \<noteq> TWI_None
      then Inl (twi_stop (snd (twi_set E RNG90_OPERATION_RANDOM_DATA s)))
      else rng90_random_payload E n
             (crc16_update E RNG90_OPERATION_RANDOM_DATA
                (snd (twi_set E RNG90_OPERATION_RANDOM_DATA s))))"

text \<open>
  The copy loops of \<open>rng90_random\<close> and \<open>rng90_serial\<close>: \<open>*(dst + i) = src[i]\<close> for the
  indices given, a fault where the caller's buffer is shorter than the header asks for.
\<close>

fun copy_loop :: "nat list \<Rightarrow> byte list \<Rightarrow> byte list \<Rightarrow> fault + byte list" where
  "copy_loop [] src dst = Inr dst"
| "copy_loop (i # js) src dst =
     (if i < length dst then copy_loop js src (dst[i := src ! i])
      else Inl (Buffer_Overrun i))"

text \<open>Lines 226 to 249 of \<open>rng90_random\<close>: the command with its filler payload.\<close>

definition rng90_random_transmit :: "environment \<Rightarrow> machine \<Rightarrow> machine + RNG90_Packet \<times> machine" where
  "rng90_random_transmit E s =
     (let packet = rng90_random_packet;
          s = twi_start s;
          (packet, s) = rng90_write E packet s
      in case rng90_random_payload E RNG90_OPERATION_RANDOM_DATA_SIZE s of
           Inl s \<Rightarrow> Inl s
         | Inr s \<Rightarrow>
            (let packet = packet\<lparr>crc := crc16_result E s\<rparr>;
                 s = snd (twi_set E (ucast (0x00FF AND crc packet)) s);
                 s = snd (twi_set E (ucast (0x00FF AND drop_bit 8 (crc packet))) s);
                 s = twi_stop s
             in Inr (packet, s)))"

definition rng90_random ::
  "environment \<Rightarrow> byte list \<Rightarrow> machine \<Rightarrow> (fault + RNG90_Status \<times> byte list \<times> machine) option" where
  "rng90_random E numbers s =
     (case rng90_random_transmit E s of
        Inl s \<Rightarrow> Some (Inr (RNG90_Status_TWI_Error, numbers, s))
      | Inr (packet, s) \<Rightarrow>
         (let s = systick_timer_wait_ms RNG90_RANDOM_EXECUTION_TIME_MS s
          in case rng90_data E (rng90_buffer s) s of
               None \<Rightarrow> None
             | Some (Inl f) \<Rightarrow> Some (Inl f)
             | Some (Inr (frame, data, s)) \<Rightarrow>
                (let s = s\<lparr>rng90_buffer := data\<rparr>
                 in if unat (length_f frame) = RNG90_STANDARD_FRAME_SIZE
                       \<and> status frame = RNG90_Data_Status_Valid
                    then Some (Inr (rng90_buffer s ! 0, numbers, s))
                    else if unat (length_f frame) = RNG90_NUMBER_FRAME_SIZE
                       \<and> status frame = RNG90_Data_Status_Valid
                    then (case copy_loop [0 ..< RNG90_OPERATION_RANDOM_RNG_SIZE]
                                 (rng90_buffer s) numbers of
                            Inl f \<Rightarrow> Some (Inl f)
                          | Inr numbers \<Rightarrow> Some (Inr (RNG90_Status_Success, numbers, s)))
                    else Some (Inr (RNG90_Status_Other_Error, numbers, s)))))"

definition rng90_serial ::
  "environment \<Rightarrow> byte list \<Rightarrow> machine \<Rightarrow> (fault + RNG90_Status \<times> byte list \<times> machine) option" where
  "rng90_serial E serial s =
     (let packet = rng90_serial_packet;
          s = snd (rng90_command E packet s);
          s = systick_timer_wait_ms RNG90_READ_EXECUTION_TIME_MS s
      in case rng90_data E (rng90_buffer s) s of
           None \<Rightarrow> None
         | Some (Inl f) \<Rightarrow> Some (Inl f)
         | Some (Inr (frame, data, s)) \<Rightarrow>
            (let s = s\<lparr>rng90_buffer := data\<rparr>
             in if unat (length_f frame) = RNG90_STANDARD_FRAME_SIZE
                   \<and> status frame = RNG90_Data_Status_Valid
                then Some (Inr (rng90_buffer s ! 0, serial, s))
                else if unat (length_f frame) = RNG90_SERIAL_FRAME_SIZE
                   \<and> status frame = RNG90_Data_Status_Valid
                then (case copy_loop [0 ..< RNG90_OPERATION_READ_SERIAL_SIZE]
                             (rng90_buffer s) serial of
                        Inl f \<Rightarrow> Some (Inl f)
                      | Inr serial \<Rightarrow> Some (Inr (RNG90_Status_Success, serial, s)))
                else Some (Inr (RNG90_Status_Other_Error, serial, s))))"

subsection \<open>Vocabulary for the properties\<close>

text \<open>
  What the bus delivers and what was put on it: \<open>received E k n\<close> are the \<open>n\<close> bytes the
  device answers to the reads number \<open>k\<close>, \<open>k + 1\<close>, ...; \<open>replies E k bs\<close> says these
  reads deliver the bytes \<open>bs\<close>; \<open>sent tr\<close> are the bytes written in a trace.
\<close>

definition received :: "environment \<Rightarrow> nat \<Rightarrow> nat \<Rightarrow> byte list" where
  "received E k n = map (get_byte E) [k ..< k + n]"

definition replies :: "environment \<Rightarrow> nat \<Rightarrow> byte list \<Rightarrow> bool" where
  "replies E k bs = (received E k (length bs) = bs)"

fun sent :: "bus_event list \<Rightarrow> byte list" where
  "sent [] = []"
| "sent (Bus_Set b # tr) = b # sent tr"
| "sent (_ # tr) = sent tr"

text \<open>
  The two checksum bytes of a frame as \<open>rng90_data\<close> assembles them (lines 100 to 103),
  the bytes of a packet that \<open>rng90_write\<close> transmits, and the checksum the engine
  computes over a byte sequence from its initial value.
\<close>

definition le16 :: "byte \<Rightarrow> byte \<Rightarrow> 16 word" where
  "le16 lo hi = ucast lo OR push_bit 8 (ucast hi)"

definition header :: "RNG90_Packet \<Rightarrow> byte list" where
  "header p = take (sizeof_RNG90_Packet - RNG90_CRC_SIZE) (packet_memory p)"

definition checksum :: "environment \<Rightarrow> byte list \<Rightarrow> 16 word" where
  "checksum E bs = crc_final E (foldl (crc_step E) (crc_seed E) bs)"

text \<open>
  The command frame of a transmitted packet: the header bytes, the extra payload
  streamed after them, and the checksum, low byte first. A loopback transport answers
  the reads with the frame that was written: the bytes sent in the trace after the
  first one, the execute command; past the frame the bus is idle.
\<close>

definition wire_frame :: "RNG90_Packet \<Rightarrow> byte list \<Rightarrow> byte list" where
  "wire_frame p extra = header p @ extra @ [ucast (crc p), ucast (drop_bit 8 (crc p))]"


text \<open>
  The trace of one complete round trip: the command frame \<open>frm\<close> written after the
  execute command, the bus stopped, the settle time \<open>t\<close> waited, and a frame with \<open>n\<close>
  payload bytes read.
\<close>

definition transaction_trace :: "byte list \<Rightarrow> nat \<Rightarrow> nat \<Rightarrow> bus_event list" where
  "transaction_trace frm t n =
     [Bus_Start, Bus_Address RNG90_ADDRESS TWI_Write, Bus_Set RNG90_EXECUTE_COMMAND]
     @ map Bus_Set frm
     @ [Bus_Stop, Wait_ms t, Bus_Start, Bus_Address RNG90_ADDRESS TWI_Read]
     @ replicate (Suc n) (Bus_Get TWI_ACK)
     @ [Bus_Get TWI_ACK, Bus_Get TWI_NACK, Bus_Stop]"

text \<open>What an operation returned: the status alone, or with the caller's object.\<close>

definition returned :: "(fault + 'a \<times> 'b) option \<Rightarrow> 'a option" where
  "returned r = (case r of Some (Inr (x, _)) \<Rightarrow> Some x | _ \<Rightarrow> None)"

definition returned_with :: "(fault + 'a \<times> 'b \<times> 'c) option \<Rightarrow> ('a \<times> 'b) option" where
  "returned_with r = (case r of Some (Inr (x, y, _)) \<Rightarrow> Some (x, y) | _ \<Rightarrow> None)"

subsection \<open>A device and an engine for the examples\<close>

text \<open>
  The theorems below hold for every environment. The examples run the driver against
  one: a checksum engine that computes the CRC-16 with \<open>RNG90_CRC_POLYNOMIAL\<close> from
  the initial value 0, each byte taken least significant bit first, and a device that
  answers the bytes of a given list and then leaves the bus idle (\<open>0xFF\<close>). The
  writes are all acknowledged, none is, or all but the write number \<open>n\<close>.
\<close>

definition RNG90_CRC_POLYNOMIAL :: "16 word" where "RNG90_CRC_POLYNOMIAL = 0x8005"

definition crc16_bit :: "16 word \<Rightarrow> bool \<Rightarrow> 16 word" where
  "crc16_bit c d =
     (if d \<noteq> bit c 15 then push_bit 1 c XOR RNG90_CRC_POLYNOMIAL else push_bit 1 c)"

definition crc16_byte :: "16 word \<Rightarrow> byte \<Rightarrow> 16 word" where
  "crc16_byte c b = foldl crc16_bit c (map (bit b) [0 ..< 8])"

definition crc16_bytes :: "byte list \<Rightarrow> 16 word" where
  "crc16_bytes bs = foldl crc16_byte 0 bs"

definition framed :: "byte list \<Rightarrow> byte list" where
  "framed bs = bs @ [ucast (crc16_bytes bs), ucast (drop_bit 8 (crc16_bytes bs))]"

definition device :: "byte list \<Rightarrow> nat \<Rightarrow> byte" where
  "device bs k = (if k < length bs then bs ! k else 0xFF)"

fun always_ack :: "nat \<Rightarrow> TWI_Error" where
  "always_ack k = TWI_None"

fun never_ack :: "nat \<Rightarrow> TWI_Error" where
  "never_ack k = TWI_Failure"

fun nack_at :: "nat \<Rightarrow> nat \<Rightarrow> TWI_Error" where
  "nack_at n k = (if k = n then TWI_Failure else TWI_None)"

definition example_env :: "(nat \<Rightarrow> TWI_Error) \<Rightarrow> byte list \<Rightarrow> environment" where
  "example_env acks bs =
     \<lparr>set_result = acks, get_byte = device bs,
      crc_seed = 0, crc_step = crc16_byte, crc_final = (\<lambda>c. c)\<rparr>"

text \<open>The globals after start-up: static storage is zero.\<close>

definition power_on :: machine where
  "power_on =
     \<lparr>tx_count = 0, rx_count = 0, trace = [], crc_running = 0,
      rng90_buffer = replicate 87 0,
      rng90_frame = \<lparr>length_f = 0, status = RNG90_Data_Status_Valid\<rparr>\<rparr>"

section \<open>Properties\<close>

lemmas rng90_consts =
  RNG90_ADDRESS_def RNG90_EXECUTE_COMMAND_def
  RNG90_OPERATION_INFO_def RNG90_OPERATION_INFO_PARAM1_def RNG90_OPERATION_INFO_PARAM2_def
  RNG90_OPERATION_RANDOM_def RNG90_OPERATION_RANDOM_PARAM1_def RNG90_OPERATION_RANDOM_PARAM2_def
  RNG90_OPERATION_RANDOM_DATA_SIZE_def RNG90_OPERATION_RANDOM_DATA_def
  RNG90_OPERATION_RANDOM_RNG_SIZE_def
  RNG90_OPERATION_READ_def RNG90_OPERATION_READ_PARAM1_def RNG90_OPERATION_READ_PARAM2_def
  RNG90_OPERATION_READ_SERIAL_SIZE_def
  RNG90_OPERATION_SELF_TEST_def RNG90_OPERATION_SELF_TEST_PARAM2_def
  RNG90_INFO_EXECUTION_TIME_MS_def RNG90_RANDOM_EXECUTION_TIME_MS_def
  RNG90_READ_EXECUTION_TIME_MS_def RNG90_SELFTEST_EXECUTION_TIME_MS_def
  RNG90_CRC_SIZE_def RNG90_STANDARD_FRAME_SIZE_def RNG90_INFO_FRAME_SIZE_def
  RNG90_NUMBER_FRAME_SIZE_def RNG90_SERIAL_FRAME_SIZE_def

lemmas rng90_status_codes =
  RNG90_Status_Success_def RNG90_Status_Parse_Error_def RNG90_Status_SelfTest_Error_def
  RNG90_Status_HealthTest_Error_def RNG90_Status_Execution_Error_def
  RNG90_Status_AfterWake_Indication_def RNG90_Status_TWI_Error_def
  RNG90_Status_Other_Error_def RNG90_SelfTest_Success_def RNG90_SelfTest_Error_def
  RNG90_SelfTest_Fail_DBRG_def


subsection \<open>Words and lists\<close>

lemma bound_nowrap:
  assumes "2 \<le> n" "n < 256"
  shows "(n + 4294967296 - RNG90_CRC_SIZE) mod 4294967296 = n - 2"
proof -
  obtain m where m: "n = m + 2" using assms(1) by (metis le_add_diff_inverse2)
  have "(m + 4294967296) mod 4294967296 = m mod 4294967296"
    by (rule mod_add_self2)
  then show ?thesis using assms(2) by (simp add: m RNG90_CRC_SIZE_def)
qed

lemma bound_wrap:
  "n < 2 \<Longrightarrow> (n + 4294967296 - RNG90_CRC_SIZE) mod 4294967296 = n + 4294967294"
  by (simp add: RNG90_CRC_SIZE_def)

lemma unat_byte_less: "unat (b :: byte) < 256"
  using unsigned_less [of b, where 'a = nat] by simp

lemma unat_byte_Suc: "unat (i :: byte) < 255 \<Longrightarrow> unat (i + 1) = Suc (unat i)"
  by (simp add: unat_word_ariths)

lemma received_Suc: "received E k (Suc n) = get_byte E k # received E (Suc k) n"
proof -
  have "[k ..< k + Suc n] = k # [Suc k ..< k + Suc n]"
    by (rule upt_conv_Cons) simp
  then show ?thesis by (simp add: received_def)
qed

subsection \<open>The receive loop\<close>

text \<open>
  From the second round on the loop stores one byte per round. For a length between 2
  and the size of the buffer plus 3 it ends after \<open>length - 3\<close> stores.
\<close>

lemma store_next:
  "k < length data \<Longrightarrow>
   take (Suc k) (data[k := b]) @ R @ drop (Suc (k + n)) (data[k := b]) =
   take k data @ (b # R) @ drop (Suc (k + n)) data"
  by (simp add: take_Suc_conv_app_nth)

lemma loop_payload:
  "\<lbrakk> 1 \<le> unat i; 2 \<le> unat (length_f (rng90_frame s));
     n = unat (length_f (rng90_frame s)) - 2 - unat i;
     unat i - 1 + n \<le> length data \<rbrakk> \<Longrightarrow>
   rng90_data_loop E i data s =
     Some (Inr (take (unat i - 1) data @ received E (rx_count s) n @ drop (unat i - 1 + n) data,
                s\<lparr>rx_count := rx_count s + n,
                  trace := trace s @ replicate n (Bus_Get TWI_ACK),
                  crc_running := foldl (crc_step E) (crc_running s) (received E (rx_count s) n)\<rparr>))"
proof (induction n arbitrary: i data s)
  case 0
  then have "\<not> unat i < unat (length_f (rng90_frame s)) - 2" by arith
  then show ?case
    using 0 by (subst rng90_data_loop.simps) (simp add: bound_nowrap unat_byte_less received_def)
next
  case (Suc n)
  let ?L = "length_f (rng90_frame s)"
  from Suc.prems have lt: "unat i < unat ?L - 2" by arith
  have i255: "unat i < 255" using lt unat_byte_less [of ?L] by arith
  have i0: "i \<noteq> 0" using Suc.prems(1) by auto
  have idx: "unat i - 1 < length data" using Suc.prems by arith
  let ?b = "get_byte E (rx_count s)"
  let ?s = "crc16_update E ?b (snd (twi_get E TWI_ACK s))"
  have frame: "rng90_frame ?s = rng90_frame s"
    by (simp add: crc16_update_def twi_get_def)
  have step: "rng90_data_loop E i data s = rng90_data_loop E (i + 1) (data[unat i - 1 := ?b]) ?s"
    apply (subst rng90_data_loop.simps)
    using lt i0 idx
    apply (simp add: bound_nowrap unat_byte_less Let_def twi_get_def)
    done
  have IH: "rng90_data_loop E (i + 1) (data[unat i - 1 := ?b]) ?s = 
     Some (Inr (take (unat (i + 1) - 1) (data[unat i - 1 := ?b]) @ received E (rx_count ?s) n @ drop (unat (i + 1) - 1 + n) (data[unat i - 1 := ?b]),
                ?s\<lparr>rx_count := rx_count ?s + n,
                  trace := trace ?s @ replicate n (Bus_Get TWI_ACK),
                  crc_running := foldl (crc_step E) (crc_running ?s) (received E (rx_count ?s) n)\<rparr>))"
    apply (rule Suc.IH)
    using Suc.prems lt i255
    apply (simp_all add: frame unat_byte_Suc)
    done
  have data_eq: "take (unat (i + 1) - 1) (data[unat i - 1 := ?b]) @ received E (rx_count ?s) n @ drop (unat (i + 1) - 1 + n) (data[unat i - 1 := ?b])
     = take (unat i - 1) data @ received E (rx_count s) (Suc n) @ drop (unat i - 1 + Suc n) data"
proof -
    obtain k where k: "unat i = Suc k" using Suc.prems(1) by (cases "unat i") auto
    have "rx_count ?s = Suc (rx_count s)" by (simp add: crc16_update_def twi_get_def)
    then show ?thesis
      using idx i255 store_next [of k data ?b "received E (Suc (rx_count s)) n" n]
      by (simp add: unat_byte_Suc received_Suc k)
  qed
  show ?case
    apply (simp only: step IH data_eq)
    apply (simp add: crc16_update_def twi_get_def received_Suc replicate_append_same)
    done
qed


lemma mask_255: "(255 :: 16 word) = mask 8" and mask_65280: "(65280 :: 16 word) = push_bit 8 (mask 8)"
  by (simp_all add: mask_eq_exp_minus_1 push_bit_eq_mult)

lemma low_byte: "(0x00FF AND (ucast (b::byte) :: 16 word)) = ucast b"
  unfolding mask_255 by (rule bit_word_eqI) (auto simp add: bit_simps dest: bit_imp_le_length)

lemma high_byte: "(0xFF00 AND push_bit 8 (ucast (b::byte) :: 16 word)) = push_bit 8 (ucast b)"
  unfolding mask_65280 by (rule bit_word_eqI) (auto simp add: bit_simps)

lemma send_low: "(ucast (0x00FF AND (c :: 16 word)) :: byte) = ucast c"
  unfolding mask_255 by (rule bit_word_eqI) (auto simp add: bit_simps)

lemma bytes_roundtrip:
  "(ucast (ucast (c :: 16 word) :: byte) :: 16 word) OR push_bit 8 (ucast (ucast (drop_bit 8 c) :: byte)) = c"
  by (rule bit_word_eqI) (auto simp add: bit_simps)

lemma loop_from_start:
  assumes three: "length_f (rng90_frame s) = 3"
      and L: "get_byte E (rx_count s) = L" and L2: "2 \<le> unat L"
      and fit: "unat L - 3 \<le> length data"
  shows "rng90_data_loop E 0 data s =
     Some (Inr (received E (Suc (rx_count s)) (unat L - 3) @ drop (unat L - 3) data,
                s\<lparr>rx_count := Suc (rx_count s) + (unat L - 3),
                  trace := trace s @ Bus_Get TWI_ACK # replicate (unat L - 3) (Bus_Get TWI_ACK),
                  crc_running := foldl (crc_step E) (crc_running s)
                     (L # received E (Suc (rx_count s)) (unat L - 3)),
                  rng90_frame := (rng90_frame s)\<lparr>length_f := L\<rparr>\<rparr>))"
proof -
  let ?s1 = "(crc16_update E L (snd (twi_get E TWI_ACK s)))
                \<lparr>rng90_frame := (rng90_frame s)\<lparr>length_f := L\<rparr>\<rparr>"
  have first: "rng90_data_loop E 0 data s = rng90_data_loop E 1 data ?s1"
    apply (subst rng90_data_loop.simps)
    apply (simp add: three twi_get_def crc16_update_def RNG90_CRC_SIZE_def L)
    done
  have rest: "rng90_data_loop E 1 data ?s1 =
     Some (Inr (take (unat (1::byte) - 1) data @ received E (rx_count ?s1) (unat L - 3)
                  @ drop (unat (1::byte) - 1 + (unat L - 3)) data,
                ?s1\<lparr>rx_count := rx_count ?s1 + (unat L - 3),
                  trace := trace ?s1 @ replicate (unat L - 3) (Bus_Get TWI_ACK),
                  crc_running := foldl (crc_step E) (crc_running ?s1)
                     (received E (rx_count ?s1) (unat L - 3))\<rparr>))"
    apply (rule loop_payload)
    using L2 fit apply simp_all
    done
  show ?thesis
    unfolding first rest
    by (simp add: twi_get_def crc16_update_def)
qed

lemma rng90_data_frame:
  assumes L: "get_byte E (rx_count s) = L" and L2: "2 \<le> unat L"
      and fit: "unat L - 3 \<le> length data"
  shows "rng90_data E data s =
     Some (Inr
       (\<lparr>length_f = L,
         status = (if le16 (get_byte E (rx_count s + 1 + (unat L - 3)))
                           (get_byte E (rx_count s + 2 + (unat L - 3)))
                      = crc_final E (foldl (crc_step E) (crc_seed E)
                          (L # received E (Suc (rx_count s)) (unat L - 3)))
                   then RNG90_Data_Status_Valid else RNG90_Data_Status_Invalid)\<rparr>,
        received E (Suc (rx_count s)) (unat L - 3) @ drop (unat L - 3) data,
        s\<lparr>rx_count := rx_count s + 3 + (unat L - 3),
          trace := trace s @ [Bus_Start, Bus_Address RNG90_ADDRESS TWI_Read, Bus_Get TWI_ACK]
                     @ replicate (unat L - 3) (Bus_Get TWI_ACK)
                     @ [Bus_Get TWI_ACK, Bus_Get TWI_NACK, Bus_Stop],
          crc_running := foldl (crc_step E) (crc_seed E)
                          (L # received E (Suc (rx_count s)) (unat L - 3)),
          rng90_frame := \<lparr>length_f = L,
             status = (if le16 (get_byte E (rx_count s + 1 + (unat L - 3)))
                           (get_byte E (rx_count s + 2 + (unat L - 3)))
                      = crc_final E (foldl (crc_step E) (crc_seed E)
                          (L # received E (Suc (rx_count s)) (unat L - 3)))
                   then RNG90_Data_Status_Valid else RNG90_Data_Status_Invalid)\<rparr>\<rparr>))"
  unfolding rng90_data_def Let_def
  apply (subst loop_from_start [where L = L])
      apply (simp_all add: twi_address_def twi_start_def crc16_init_def RNG90_CRC_SIZE_def L L2 fit)
  apply (simp add: twi_get_def crc16_update_def
        crc16_result_def twi_stop_def low_byte high_byte le16_def)
  done


subsection \<open>The transmitter\<close>

lemma send_high: "(ucast (0x00FF AND drop_bit 8 (c :: 16 word)) :: byte) = ucast (drop_bit 8 c)"
  by (rule send_low)

lemma header_bytes:
  "header p = [count p, opcode p, param1 p, ucast (param2 p), ucast (drop_bit 8 (param2 p))]"
  by (simp add: header_def sizeof_RNG90_Packet_def RNG90_CRC_SIZE_def packet_memory_def)

lemma write_loop_effect:
  "rng90_write_loop E bs s =
     s\<lparr>tx_count := tx_count s + length bs,
       trace := trace s @ map Bus_Set bs,
       crc_running := foldl (crc_step E) (crc_running s) bs\<rparr>"
  by (induction bs arbitrary: s) (simp_all add: twi_set_def crc16_update_def)

lemma rng90_write_effect:
  "rng90_write E p s =
     (p\<lparr>count := count p + 7\<rparr>,
      s\<lparr>tx_count := tx_count s + 6,
        trace := trace s @ Bus_Address RNG90_ADDRESS TWI_Write # Bus_Set RNG90_EXECUTE_COMMAND
                   # map Bus_Set (header (p\<lparr>count := count p + 7\<rparr>)),
        crc_running := foldl (crc_step E) (crc_seed E) (header (p\<lparr>count := count p + 7\<rparr>))\<rparr>)"
  by (simp add: rng90_write_def Let_def write_loop_effect header_def [symmetric]
      header_bytes crc16_init_def twi_address_def twi_set_def)

lemma rng90_command_effect:
  "rng90_command E p s =
     (p\<lparr>count := count p + 7, crc := checksum E (header (p\<lparr>count := count p + 7\<rparr>))\<rparr>,
      s\<lparr>tx_count := tx_count s + 8,
        trace := trace s @ Bus_Start # Bus_Address RNG90_ADDRESS TWI_Write
                   # Bus_Set RNG90_EXECUTE_COMMAND
                   # map Bus_Set (header (p\<lparr>count := count p + 7\<rparr>)
                        @ [ucast (checksum E (header (p\<lparr>count := count p + 7\<rparr>))),
                           ucast (drop_bit 8 (checksum E (header (p\<lparr>count := count p + 7\<rparr>))))])
                   @ [Bus_Stop],
        crc_running := foldl (crc_step E) (crc_seed E) (header (p\<lparr>count := count p + 7\<rparr>))\<rparr>)"
  by (simp add: rng90_command_def Let_def rng90_write_effect twi_start_def twi_set_def twi_stop_def
      crc16_result_def checksum_def send_low send_high)

subsection \<open>Frames on the bus\<close>

lemma length_received: "length (received E k n) = n"
  by (simp add: received_def)

lemma nth_received: "i < n \<Longrightarrow> received E k n ! i = get_byte E (k + i)"
  by (simp add: received_def)

lemma replies_nth: "replies E k bs \<Longrightarrow> j < length bs \<Longrightarrow> get_byte E (k + j) = bs ! j"
proof -
  assume r: "replies E k bs" and j: "j < length bs"
  have "map (get_byte E) [k ..< k + length bs] ! j = get_byte E (k + j)"
    using j by simp
  then show ?thesis using r by (simp add: replies_def received_def)
qed

lemma replies_frame:
  assumes "replies E k (L # payload @ [lo, hi])"
  shows "get_byte E k = L" and "received E (Suc k) (length payload) = payload"
    and "get_byte E (Suc (k + length payload)) = lo"
    and "get_byte E (Suc (Suc (k + length payload))) = hi"
proof -
  note nth = replies_nth [OF assms]
  show "get_byte E k = L" using nth [of 0] by simp
  show "get_byte E (Suc (k + length payload)) = lo"
    using nth [of "Suc (length payload)"] by (simp add: nth_append)
  show "get_byte E (Suc (Suc (k + length payload))) = hi"
  proof -
    have "([lo, hi]) ! 1 = (payload @ [lo, hi]) ! (length payload + 1)"
      by (simp only: nth_append_length_plus)
    then show ?thesis using nth [of "Suc (Suc (length payload))"] by simp
  qed
  show "received E (Suc k) (length payload) = payload"
  proof (rule nth_equalityI)
    show "length (received E (Suc k) (length payload)) = length payload"
      by (rule length_received)
  next
    fix i assume "i < length (received E (Suc k) (length payload))"
    then have i: "i < length payload" by (simp add: length_received)
    then show "received E (Suc k) (length payload) ! i = payload ! i"
      using nth [of "Suc i"] by (simp add: nth_received nth_append)
  qed
qed

lemma rng90_data_reply:
  assumes r: "replies E (rx_count s) (L # payload @ [lo, hi])"
      and L2: "2 \<le> unat L" and len: "length payload = unat L - 3"
      and fit: "length payload \<le> length data"
  shows "rng90_data E data s =
     Some (Inr
       (\<lparr>length_f = L,
         status = (if le16 lo hi = checksum E (L # payload)
                   then RNG90_Data_Status_Valid else RNG90_Data_Status_Invalid)\<rparr>,
        payload @ drop (length payload) data,
        s\<lparr>rx_count := rx_count s + 3 + length payload,
          trace := trace s @ [Bus_Start, Bus_Address RNG90_ADDRESS TWI_Read, Bus_Get TWI_ACK]
                     @ replicate (length payload) (Bus_Get TWI_ACK)
                     @ [Bus_Get TWI_ACK, Bus_Get TWI_NACK, Bus_Stop],
          crc_running := foldl (crc_step E) (crc_seed E) (L # payload),
          rng90_frame := \<lparr>length_f = L,
             status = (if le16 lo hi = checksum E (L # payload)
                   then RNG90_Data_Status_Valid else RNG90_Data_Status_Invalid)\<rparr>\<rparr>))"
  using rng90_data_frame [of E s L data] replies_frame [OF r] L2 fit
  by (simp add: len [symmetric] checksum_def)

subsection \<open>The filler loop and the copy loops\<close>

lemma payload_ok:
  "(\<And>k. k < n \<Longrightarrow> set_result E (tx_count s + k) = TWI_None) \<Longrightarrow>
   rng90_random_payload E n s =
     Inr (s\<lparr>tx_count := tx_count s + n,
            trace := trace s @ replicate n (Bus_Set RNG90_OPERATION_RANDOM_DATA),
            crc_running := foldl (crc_step E) (crc_running s)
                             (replicate n RNG90_OPERATION_RANDOM_DATA)\<rparr>)"
proof (induction n arbitrary: s)
  case 0
  then show ?case by simp
next
  case (Suc n)
  let ?s = "crc16_update E RNG90_OPERATION_RANDOM_DATA (snd (twi_set E RNG90_OPERATION_RANDOM_DATA s))"
  have ok: "fst (twi_set E RNG90_OPERATION_RANDOM_DATA s) = TWI_None"
    using Suc.prems [of 0] by (simp add: twi_set_def)
  have "rng90_random_payload E n ?s = Inr (?s\<lparr>tx_count := tx_count ?s + n,
            trace := trace ?s @ replicate n (Bus_Set RNG90_OPERATION_RANDOM_DATA),
            crc_running := foldl (crc_step E) (crc_running ?s)
                             (replicate n RNG90_OPERATION_RANDOM_DATA)\<rparr>)"
    apply (rule Suc.IH)
    using Suc.prems [of "Suc k" for k] by (simp add: twi_set_def crc16_update_def)
  then show ?case
    using ok by (simp add: twi_set_def crc16_update_def replicate_append_same)
qed

lemma payload_fail:
  "\<lbrakk> j < n; \<And>k. k < j \<Longrightarrow> set_result E (tx_count s + k) = TWI_None;
     set_result E (tx_count s + j) \<noteq> TWI_None \<rbrakk> \<Longrightarrow>
   rng90_random_payload E n s =
     Inl (s\<lparr>tx_count := Suc (tx_count s + j),
            trace := trace s @ replicate (Suc j) (Bus_Set RNG90_OPERATION_RANDOM_DATA) @ [Bus_Stop],
            crc_running := foldl (crc_step E) (crc_running s)
                             (replicate j RNG90_OPERATION_RANDOM_DATA)\<rparr>)"
proof (induction n arbitrary: s j)
  case 0
  then show ?case by simp
next
  case (Suc n)
  show ?case
  proof (cases j)
    case 0
    then show ?thesis using Suc.prems by (simp add: twi_set_def twi_stop_def)
  next
    case (Suc j')
    let ?s = "crc16_update E RNG90_OPERATION_RANDOM_DATA (snd (twi_set E RNG90_OPERATION_RANDOM_DATA s))"
    have ok: "fst (twi_set E RNG90_OPERATION_RANDOM_DATA s) = TWI_None"
      using Suc.prems(2) [of 0] Suc by (simp add: twi_set_def)
    have "rng90_random_payload E n ?s = Inl (?s\<lparr>tx_count := Suc (tx_count ?s + j'),
            trace := trace ?s @ replicate (Suc j') (Bus_Set RNG90_OPERATION_RANDOM_DATA) @ [Bus_Stop],
            crc_running := foldl (crc_step E) (crc_running ?s)
                             (replicate j' RNG90_OPERATION_RANDOM_DATA)\<rparr>)"
      apply (rule Suc.IH)
      using Suc.prems(1) Suc.prems(2) [of "Suc k" for k] Suc.prems(3) Suc
      by (simp_all add: twi_set_def crc16_update_def)
    then show ?thesis
      using ok Suc by (simp add: twi_set_def crc16_update_def replicate_append_same)
  qed
qed

lemma command_keeps:
  "rx_count (snd (rng90_command E p s)) = rx_count s"
  "rng90_buffer (snd (rng90_command E p s)) = rng90_buffer s"
  by (simp_all add: rng90_command_effect)

lemma wait_keeps:
  "rx_count (systick_timer_wait_ms n s) = rx_count s"
  "rng90_buffer (systick_timer_wait_ms n s) = rng90_buffer s"
  by (simp_all add: systick_timer_wait_ms_def)

lemma copy_loop_append:
  "copy_loop (xs @ ys) src dst =
     (case copy_loop xs src dst of Inl f \<Rightarrow> Inl f | Inr d \<Rightarrow> copy_loop ys src d)"
  by (induction xs arbitrary: dst) simp_all

lemma copy_loop_upt:
  "n \<le> length src \<Longrightarrow> n \<le> length dst \<Longrightarrow>
   copy_loop [0 ..< n] src dst = Inr (take n src @ drop n dst)"
proof (induction n)
  case 0
  then show ?case by simp
next
  case (Suc n)
  then have "copy_loop [0 ..< n] src dst = Inr (take n src @ drop n dst)" by simp
  moreover have "(take n src @ drop n dst)[n := src ! n] = take (Suc n) src @ drop (Suc n) dst"
    using Suc.prems
    by (simp add: list_update_append take_Suc_conv_app_nth upd_conv_take_nth_drop)
  ultimately show ?case using Suc.prems by (simp add: copy_loop_append)
qed

subsection \<open>The operations on a frame that fits the buffer\<close>

lemma selftest_reply:
  assumes r: "replies E (rx_count s) (L # payload @ [lo, hi])"
      and L2: "2 \<le> unat L" and L90: "unat L \<le> 90" and len: "length payload = unat L - 3"
      and buf: "length (rng90_buffer s) = 87"
  shows "returned (rng90_selftest E t s) =
     Some (if unat L = 4 \<and> le16 lo hi = checksum E (L # payload)
           then payload ! 0 else RNG90_SelfTest_Error)"
proof -
  let ?s1 = "systick_timer_wait_ms RNG90_SELFTEST_EXECUTION_TIME_MS
              (snd (rng90_command E (rng90_selftest_packet t) s))"
  have r1: "replies E (rx_count ?s1) (L # payload @ [lo, hi])"
    using r by (simp add: command_keeps wait_keeps)
  have fit: "length payload \<le> length (rng90_buffer ?s1)"
    using len L90 buf by (simp add: command_keeps wait_keeps)
  note D = rng90_data_reply [OF r1 L2 len fit]
  show ?thesis
    unfolding rng90_selftest_def Let_def D
    using len by (auto simp add: returned_def RNG90_STANDARD_FRAME_SIZE_def nth_append)
qed

lemma info_reply:
  assumes r: "replies E (rx_count s) (L # payload @ [lo, hi])"
      and L2: "2 \<le> unat L" and L90: "unat L \<le> 90" and len: "length payload = unat L - 3"
      and buf: "length (rng90_buffer s) = 87"
  shows "returned_with (rng90_info E info s) =
     Some (if unat L = 4 \<and> le16 lo hi = checksum E (L # payload)
           then (payload ! 0, info)
           else if unat L = 7 \<and> le16 lo hi = checksum E (L # payload)
           then (RNG90_Status_Success,
                 \<lparr>RFU = payload ! 0, DeviceID = payload ! 1,
                  SiliconID = payload ! 2, Revision = payload ! 3\<rparr>)
           else (RNG90_Status_Other_Error, info))"
proof -
  let ?s1 = "systick_timer_wait_ms RNG90_INFO_EXECUTION_TIME_MS
              (snd (rng90_command E rng90_info_packet s))"
  have r1: "replies E (rx_count ?s1) (L # payload @ [lo, hi])"
    using r by (simp add: command_keeps wait_keeps)
  have fit: "length payload \<le> length (rng90_buffer ?s1)"
    using len L90 buf by (simp add: command_keeps wait_keeps)
  note D = rng90_data_reply [OF r1 L2 len fit]
  show ?thesis
    unfolding rng90_info_def Let_def D
    using len
    by (auto simp add: returned_with_def RNG90_STANDARD_FRAME_SIZE_def RNG90_INFO_FRAME_SIZE_def
        nth_append)
qed

lemma serial_reply:
  assumes r: "replies E (rx_count s) (L # payload @ [lo, hi])"
      and L2: "2 \<le> unat L" and L90: "unat L \<le> 90" and len: "length payload = unat L - 3"
      and buf: "length (rng90_buffer s) = 87" and ser: "unat L = 19 \<Longrightarrow> le16 lo hi = checksum E (L # payload) \<Longrightarrow> 8 \<le> length serial"
  shows "returned_with (rng90_serial E serial s) =
     Some (if unat L = 4 \<and> le16 lo hi = checksum E (L # payload)
           then (payload ! 0, serial)
           else if unat L = 19 \<and> le16 lo hi = checksum E (L # payload)
           then (RNG90_Status_Success, take 8 payload @ drop 8 serial)
           else (RNG90_Status_Other_Error, serial))"
proof -
  let ?s1 = "systick_timer_wait_ms RNG90_READ_EXECUTION_TIME_MS
              (snd (rng90_command E rng90_serial_packet s))"
  have r1: "replies E (rx_count ?s1) (L # payload @ [lo, hi])"
    using r by (simp add: command_keeps wait_keeps)
  have fit: "length payload \<le> length (rng90_buffer ?s1)"
    using len L90 buf by (simp add: command_keeps wait_keeps)
  note D = rng90_data_reply [OF r1 L2 len fit]
  show ?thesis
    unfolding rng90_serial_def Let_def D
    using len ser
    by (auto simp add: returned_with_def RNG90_STANDARD_FRAME_SIZE_def RNG90_SERIAL_FRAME_SIZE_def
        RNG90_OPERATION_READ_SERIAL_SIZE_def nth_append copy_loop_upt)
qed


lemma transmit_ok:
  assumes ok: "\<And>k. k < 20 \<Longrightarrow> set_result E (tx_count s + 6 + k) = TWI_None"
  shows "rng90_random_transmit E s =
     Inr (rng90_random_packet
            \<lparr>count := 27,
             crc := checksum E (header (rng90_random_packet\<lparr>count := 27\<rparr>)
                      @ replicate 20 RNG90_OPERATION_RANDOM_DATA)\<rparr>,
          s\<lparr>tx_count := tx_count s + 28,
            trace := trace s @ Bus_Start # Bus_Address RNG90_ADDRESS TWI_Write
                   # Bus_Set RNG90_EXECUTE_COMMAND
                   # map Bus_Set (header (rng90_random_packet\<lparr>count := 27\<rparr>)
                        @ replicate 20 RNG90_OPERATION_RANDOM_DATA
                        @ [ucast (checksum E (header (rng90_random_packet\<lparr>count := 27\<rparr>)
                             @ replicate 20 RNG90_OPERATION_RANDOM_DATA)),
                           ucast (drop_bit 8 (checksum E (header (rng90_random_packet\<lparr>count := 27\<rparr>)
                             @ replicate 20 RNG90_OPERATION_RANDOM_DATA)))])
                   @ [Bus_Stop],
            crc_running := foldl (crc_step E) (crc_seed E)
                  (header (rng90_random_packet\<lparr>count := 27\<rparr>)
                     @ replicate 20 RNG90_OPERATION_RANDOM_DATA)\<rparr>)"
proof -
  let ?s1 = "snd (rng90_write E rng90_random_packet (twi_start s))"
  have c27: "count rng90_random_packet + 7 = 27"
    by (simp add: rng90_random_packet_def RNG90_OPERATION_RANDOM_DATA_SIZE_def)
  have tx: "tx_count ?s1 = tx_count s + 6"
    by (simp add: rng90_write_effect twi_start_def)
  have P: "rng90_random_payload E 20 ?s1 =
     Inr (?s1\<lparr>tx_count := tx_count ?s1 + 20,
            trace := trace ?s1 @ replicate 20 (Bus_Set RNG90_OPERATION_RANDOM_DATA),
            crc_running := foldl (crc_step E) (crc_running ?s1)
                             (replicate 20 RNG90_OPERATION_RANDOM_DATA)\<rparr>)"
    by (rule payload_ok) (simp add: tx ok)
  show ?thesis
    unfolding rng90_random_transmit_def Let_def RNG90_OPERATION_RANDOM_DATA_SIZE_def
    apply (simp add: split_def P)
    apply (simp add: rng90_write_effect c27 twi_start_def twi_set_def twi_stop_def
        crc16_result_def checksum_def send_low send_high map_replicate)
    done
qed

lemma transmit_fail:
  assumes j: "j < 20"
      and ok: "\<And>k. k < j \<Longrightarrow> set_result E (tx_count s + 6 + k) = TWI_None"
      and bad: "set_result E (tx_count s + 6 + j) \<noteq> TWI_None"
  shows "rng90_random_transmit E s =
     Inl (s\<lparr>tx_count := tx_count s + 7 + j,
            trace := trace s @ Bus_Start # Bus_Address RNG90_ADDRESS TWI_Write
                   # Bus_Set RNG90_EXECUTE_COMMAND
                   # map Bus_Set (header (rng90_random_packet\<lparr>count := 27\<rparr>)
                        @ replicate (Suc j) RNG90_OPERATION_RANDOM_DATA)
                   @ [Bus_Stop],
            crc_running := foldl (crc_step E) (crc_seed E)
                  (header (rng90_random_packet\<lparr>count := 27\<rparr>)
                     @ replicate j RNG90_OPERATION_RANDOM_DATA)\<rparr>)"
proof -
  let ?s1 = "snd (rng90_write E rng90_random_packet (twi_start s))"
  have c27: "count rng90_random_packet + 7 = 27"
    by (simp add: rng90_random_packet_def RNG90_OPERATION_RANDOM_DATA_SIZE_def)
  have tx: "tx_count ?s1 = tx_count s + 6"
    by (simp add: rng90_write_effect twi_start_def)
  have P: "rng90_random_payload E 20 ?s1 =
     Inl (?s1\<lparr>tx_count := Suc (tx_count ?s1 + j),
            trace := trace ?s1 @ replicate (Suc j) (Bus_Set RNG90_OPERATION_RANDOM_DATA) @ [Bus_Stop],
            crc_running := foldl (crc_step E) (crc_running ?s1)
                             (replicate j RNG90_OPERATION_RANDOM_DATA)\<rparr>)"
    by (rule payload_fail [OF j]) (simp_all add: tx ok bad)
  show ?thesis
    unfolding rng90_random_transmit_def Let_def RNG90_OPERATION_RANDOM_DATA_SIZE_def
    apply (simp add: split_def P)
    apply (simp add: rng90_write_effect c27 twi_start_def map_replicate)
    done
qed

lemma random_reply:
  assumes ok: "\<And>k. k < 20 \<Longrightarrow> set_result E (tx_count s + 6 + k) = TWI_None"
      and r: "replies E (rx_count s) (L # payload @ [lo, hi])"
      and L2: "2 \<le> unat L" and L90: "unat L \<le> 90" and len: "length payload = unat L - 3"
      and buf: "length (rng90_buffer s) = 87" and num: "unat L = 35 \<Longrightarrow> le16 lo hi = checksum E (L # payload) \<Longrightarrow> 32 \<le> length numbers"
  shows "returned_with (rng90_random E numbers s) =
     Some (if unat L = 4 \<and> le16 lo hi = checksum E (L # payload)
           then (payload ! 0, numbers)
           else if unat L = 35 \<and> le16 lo hi = checksum E (L # payload)
           then (RNG90_Status_Success, payload @ drop 32 numbers)
           else (RNG90_Status_Other_Error, numbers))"
proof -
  obtain p s0 where T: "rng90_random_transmit E s = Inr (p, s0)"
    and rx: "rx_count s0 = rx_count s" and b0: "rng90_buffer s0 = rng90_buffer s"
    using transmit_ok [of E s, OF ok] by simp
  let ?s1 = "systick_timer_wait_ms RNG90_RANDOM_EXECUTION_TIME_MS s0"
  have r1: "replies E (rx_count ?s1) (L # payload @ [lo, hi])"
    using r by (simp add: wait_keeps rx)
  have fit: "length payload \<le> length (rng90_buffer ?s1)"
    using len L90 buf by (simp add: wait_keeps b0)
  note D = rng90_data_reply [OF r1 L2 len fit]
  show ?thesis
    unfolding rng90_random_def
    apply (simp only: T sum.case prod.case Let_def D)
    using len num
    apply (auto simp add: returned_with_def RNG90_STANDARD_FRAME_SIZE_def RNG90_NUMBER_FRAME_SIZE_def
        RNG90_OPERATION_RANDOM_RNG_SIZE_def nth_append copy_loop_upt)
    done
qed

subsection \<open>The example environment\<close>

lemma example_env_simps:
  "set_result (example_env acks bs) = acks"
  "get_byte (example_env acks bs) = device bs"
  "checksum (example_env acks bs) xs = crc16_bytes xs"
  by (simp_all add: example_env_def checksum_def crc16_bytes_def)

lemma example_replies: "replies (example_env acks bs) 0 bs"
  unfolding replies_def
  by (rule nth_equalityI) (simp_all add: length_received nth_received example_env_simps device_def)

lemma framed_valid:
  "le16 (ucast (crc16_bytes bs)) (ucast (drop_bit 8 (crc16_bytes bs))) = crc16_bytes bs"
  by (simp add: le16_def bytes_roundtrip)

lemma power_on_simps:
  "rx_count power_on = 0" "tx_count power_on = 0" "trace power_on = []"
  "length (rng90_buffer power_on) = 87"
  by (simp_all add: power_on_def)

lemma init_of_selftest:
  "returned (rng90_init E s) =
     map_option (\<lambda>r. if r = RNG90_SelfTest_Success then RNG90_Status_Success
                      else RNG90_Status_SelfTest_Error)
       (returned (rng90_selftest E RNG90_Run_DRBG_SelfTest s))"
  by (simp add: rng90_init_def returned_def split: option.splits sum.splits prod.splits)

text \<open>
  C7. \<open>rng90_init\<close> is the composition of the DRBG self-test with a map of its
  result, whatever the self-test does: the pass code \<open>0x00\<close> gives
  \<open>RNG90_Status_Success\<close>, every other code (also \<open>RNG90_SelfTest_Error\<close> after an
  invalid or unexpected frame) gives \<open>RNG90_Status_SelfTest_Error\<close>, and a fault or a
  run without end of the self-test is one of \<open>rng90_init\<close>. In particular, on a valid
  4-byte frame with status byte \<open>b\<close> the self-test returns \<open>b\<close>, so \<open>rng90_init\<close>
  returns success for \<open>b = 0x00\<close> and the initialisation failure for every other \<open>b\<close>.
\<close>

theorem rng90_init_composition:
  "rng90_init E s =
     (case rng90_selftest E RNG90_Run_DRBG_SelfTest s of
        None \<Rightarrow> None
      | Some (Inl f) \<Rightarrow> Some (Inl f)
      | Some (Inr (r, s')) \<Rightarrow>
          Some (Inr (if r = RNG90_SelfTest_Success then RNG90_Status_Success
                     else RNG90_Status_SelfTest_Error, s')))
   \<and> returned (rng90_init E s) =
       map_option (\<lambda>r. if r = RNG90_SelfTest_Success then RNG90_Status_Success
                        else RNG90_Status_SelfTest_Error)
         (returned (rng90_selftest E RNG90_Run_DRBG_SelfTest s))
   \<and> (replies E (rx_count s) [4, b, lo, hi] \<and> le16 lo hi = checksum E [4, b]
        \<and> length (rng90_buffer s) = 87 \<longrightarrow>
        returned (rng90_selftest E RNG90_Run_DRBG_SelfTest s) = Some b
        \<and> returned (rng90_init E s) =
            Some (if b = 0x00 then RNG90_Status_Success else RNG90_Status_SelfTest_Error))"
proof -
  have comp: "rng90_init E s =
           (case rng90_selftest E RNG90_Run_DRBG_SelfTest s of
              None \<Rightarrow> None
            | Some (Inl f) \<Rightarrow> Some (Inl f)
            | Some (Inr (r, s')) \<Rightarrow>
                Some (Inr (if r = RNG90_SelfTest_Success then RNG90_Status_Success
                           else RNG90_Status_SelfTest_Error, s')))"
    by (simp add: rng90_init_def split: option.splits sum.splits prod.splits)
  have frame: "returned (rng90_selftest E RNG90_Run_DRBG_SelfTest s) = Some b
        \<and> returned (rng90_init E s) =
            Some (if b = 0x00 then RNG90_Status_Success else RNG90_Status_SelfTest_Error)"
    if r: "replies E (rx_count s) [4, b, lo, hi]" and v: "le16 lo hi = checksum E [4, b]"
      and l: "length (rng90_buffer s) = 87"
  proof -
    have "replies E (rx_count s) (4 # [b] @ [lo, hi])" using r by simp
    from selftest_reply [OF this, of RNG90_Run_DRBG_SelfTest] v l
    have st: "returned (rng90_selftest E RNG90_Run_DRBG_SelfTest s) = Some b" by simp
    then show ?thesis by (simp add: init_of_selftest RNG90_SelfTest_Success_def)
  qed
  show ?thesis using comp init_of_selftest [of E s] frame by blast
qed

theorem rng90_init_composition_witness:
  "returned (rng90_selftest (example_env always_ack (framed [4, 0x01]))
       RNG90_Run_DRBG_SelfTest power_on) = Some 0x01
   \<and> returned (rng90_init (example_env always_ack (framed [4, 0x01])) power_on)
       = Some RNG90_Status_SelfTest_Error
   \<and> returned (rng90_init (example_env always_ack (framed [4, 0x00])) power_on)
       = Some RNG90_Status_Success"
proof -
  have r: "replies (example_env always_ack (framed [4, x])) (rx_count power_on)
       [4, x, ucast (crc16_bytes [4, x]), ucast (drop_bit 8 (crc16_bytes [4, x]))]" for x
    using example_replies [of always_ack "framed [4, x]"]
    by (simp add: framed_def power_on_simps)
  have v: "le16 (ucast (crc16_bytes [4, x])) (ucast (drop_bit 8 (crc16_bytes [4, x])))
       = checksum (example_env always_ack (framed [4, x])) [4, x]" for x
    by (simp add: example_env_simps framed_valid)
  have b: "length (rng90_buffer power_on) = 87" by (simp add: power_on_simps)
  note F = rng90_init_composition [THEN conjunct2, THEN conjunct2, rule_format,
      OF conjI [OF r conjI [OF v b]]]
  show ?thesis
    using F [of "0x01"] F [of "0x00"]
    by (simp add: RNG90_Status_Success_def RNG90_Status_SelfTest_Error_def)
qed

text \<open>
  The frame receiver on a frame whose payload fits the caller's buffer, from the
  declared length 2 on: the first byte read is the frame length \<open>L\<close>; the next \<open>L - 3\<close>
  bytes are stored at the start of the buffer, whatever the checksum says; the running
  checksum covers the length byte and then the payload; the two trailing bytes are
  assembled low byte first, the last read with \<open>TWI_NACK\<close> before the stop; and the
  function returns the length with \<open>RNG90_Data_Status_Valid\<close> when the assembled value
  equals the engine's result and with \<open>RNG90_Data_Status_Invalid\<close> otherwise.
\<close>

lemma rng90_data_receives:
  assumes "replies E (rx_count s) (L # payload @ [lo, hi])"
      and "2 \<le> unat L" and "length payload = unat L - 3"
      and "length payload \<le> length data"
  shows "\<exists>s'. rng90_data E data s =
            Some (Inr (\<lparr>length_f = L,
                        status = (if ucast lo OR push_bit 8 (ucast hi)
                                       = crc_final E (foldl (crc_step E) (crc_seed E) (L # payload))
                                  then RNG90_Data_Status_Valid
                                  else RNG90_Data_Status_Invalid)\<rparr>,
                       payload @ drop (length payload) data, s'))
          \<and> rx_count s' = rx_count s + 1 + length payload + 2
          \<and> trace s' = trace s @ [Bus_Start, Bus_Address RNG90_ADDRESS TWI_Read]
                           @ replicate (1 + length payload) (Bus_Get TWI_ACK)
                           @ [Bus_Get TWI_ACK, Bus_Get TWI_NACK, Bus_Stop]
          \<and> crc_running s' = foldl (crc_step E) (crc_seed E) (L # payload)"
  using rng90_data_reply [OF assms] by (simp add: le16_def checksum_def)

lemma rng90_data_receives_example:
  "\<exists>s'. rng90_data (example_env always_ack [7, 0xA0, 0xD0, 0x01, 0x10, 0x34, 0x12])
            (replicate 87 0) power_on =
            Some (Inr (\<lparr>length_f = 7, status = RNG90_Data_Status_Invalid\<rparr>,
                       [0xA0, 0xD0, 0x01, 0x10] @ replicate 83 0, s'))
          \<and> rx_count s' = 7
          \<and> trace s' = [Bus_Start, Bus_Address RNG90_ADDRESS TWI_Read,
                         Bus_Get TWI_ACK, Bus_Get TWI_ACK, Bus_Get TWI_ACK, Bus_Get TWI_ACK,
                         Bus_Get TWI_ACK, Bus_Get TWI_ACK, Bus_Get TWI_NACK, Bus_Stop]"
proof -
  let ?E = "example_env always_ack [7, 0xA0, 0xD0, 0x01, 0x10, 0x34, 0x12]"
  have r: "replies ?E (rx_count power_on) (7 # [0xA0, 0xD0, 0x01, 0x10] @ [0x34, 0x12])"
    using example_replies [of always_ack "[7, 0xA0, 0xD0, 0x01, 0x10, 0x34, 0x12]"]
    by (simp add: power_on_simps)
  have c: "crc16_bytes [7, 0xA0, 0xD0, 0x01, 0x10] \<noteq> 0x1234"
    by code_simp
  have "\<exists>s'. rng90_data ?E (replicate 87 0) power_on =
            Some (Inr (\<lparr>length_f = 7,
                        status = (if ucast (0x34 :: byte) OR push_bit 8 (ucast (0x12 :: byte))
                                       = crc_final ?E (foldl (crc_step ?E) (crc_seed ?E) (7 # [0xA0, 0xD0, 0x01, 0x10]))
                                  then RNG90_Data_Status_Valid
                                  else RNG90_Data_Status_Invalid)\<rparr>,
                       [0xA0, 0xD0, 0x01, 0x10] @ drop (length [0xA0, 0xD0, 0x01, 0x10 :: byte]) (replicate 87 0), s'))
          \<and> rx_count s' = rx_count power_on + 1 + length [0xA0, 0xD0, 0x01, 0x10 :: byte] + 2
          \<and> trace s' = trace power_on @ [Bus_Start, Bus_Address RNG90_ADDRESS TWI_Read]
                           @ replicate (1 + length [0xA0, 0xD0, 0x01, 0x10 :: byte]) (Bus_Get TWI_ACK)
                           @ [Bus_Get TWI_ACK, Bus_Get TWI_NACK, Bus_Stop]
          \<and> crc_running s' = foldl (crc_step ?E) (crc_seed ?E) (7 # [0xA0, 0xD0, 0x01, 0x10])"
    by (rule rng90_data_receives [OF r]) simp_all
  then obtain s' where *: "rng90_data ?E (replicate 87 0) power_on =
            Some (Inr (\<lparr>length_f = 7,
                        status = (if ucast (0x34 :: byte) OR push_bit 8 (ucast (0x12 :: byte))
                                       = crc_final ?E (foldl (crc_step ?E) (crc_seed ?E) (7 # [0xA0, 0xD0, 0x01, 0x10]))
                                  then RNG90_Data_Status_Valid
                                  else RNG90_Data_Status_Invalid)\<rparr>,
                       [0xA0, 0xD0, 0x01, 0x10] @ drop (length [0xA0, 0xD0, 0x01, 0x10 :: byte]) (replicate 87 0), s'))"
     and rx: "rx_count s' = rx_count power_on + 1 + length [0xA0, 0xD0, 0x01, 0x10 :: byte] + 2"
     and tr: "trace s' = trace power_on @ [Bus_Start, Bus_Address RNG90_ADDRESS TWI_Read]
                           @ replicate (1 + length [0xA0, 0xD0, 0x01, 0x10 :: byte]) (Bus_Get TWI_ACK)
                           @ [Bus_Get TWI_ACK, Bus_Get TWI_NACK, Bus_Stop]"
    by blast
  have le: "(ucast (0x34 :: byte) OR push_bit 8 (ucast (0x12 :: byte)) :: 16 word) = 0x1234"
    by simp
  have cs: "crc_final ?E (foldl (crc_step ?E) (crc_seed ?E) (7 # [0xA0, 0xD0, 0x01, 0x10]))
      = crc16_bytes [7, 0xA0, 0xD0, 0x01, 0x10]"
    using example_env_simps(3) [of always_ack _ "[7, 0xA0, 0xD0, 0x01, 0x10]"]
    by (simp add: checksum_def)
  have st: "(if ucast (0x34 :: byte) OR push_bit 8 (ucast (0x12 :: byte))
                                       = crc_final ?E (foldl (crc_step ?E) (crc_seed ?E) (7 # [0xA0, 0xD0, 0x01, 0x10]))
                                  then RNG90_Data_Status_Valid
                                  else RNG90_Data_Status_Invalid) = RNG90_Data_Status_Invalid"
    unfolding le cs using c by simp
  show ?thesis
    apply (rule exI [of _ s'])
    unfolding * st using rx tr
    by (simp add: power_on_simps numeral_eq_Suc)
qed

text \<open>
  Classification of the received frame in \<open>rng90_info\<close>, \<open>rng90_random\<close> and
  \<open>rng90_serial\<close>, for every frame \<open>L # payload @ [lo, hi]\<close> that the receive step
  returns (declared length 2 to 90): a valid frame of length 4 returns its payload
  byte as the status and leaves the caller's object alone; otherwise a valid frame of
  the expected length (7, 35, 19) returns \<open>RNG90_Status_Success\<close> with the four info
  fields in payload order, the 32 payload bytes at the start of \<open>numbers\<close>, or the first
  \<open>RNG90_OPERATION_READ_SERIAL_SIZE\<close> payload bytes at the start of \<open>serial\<close>; every
  other frame returns \<open>RNG90_Status_Other_Error\<close> and leaves the caller's object alone.
\<close>

lemma frame_classification:
  assumes "replies E (rx_count s) (L # payload @ [lo, hi])"
      and "2 \<le> unat L" and "unat L \<le> 90" and "length payload = unat L - 3"
      and "length (rng90_buffer s) = 87"
      and "\<forall>k<20. set_result E (tx_count s + 6 + k) = TWI_None"
      and "32 \<le> length numbers" and "8 \<le> length serial"
  shows "returned_with (rng90_info E info s) =
           Some (if unat L = 4 \<and> le16 lo hi = checksum E (L # payload)
                 then (payload ! 0, info)
                 else if unat L = 7 \<and> le16 lo hi = checksum E (L # payload)
                 then (RNG90_Status_Success,
                       \<lparr>RFU = payload ! 0, DeviceID = payload ! 1,
                        SiliconID = payload ! 2, Revision = payload ! 3\<rparr>)
                 else (RNG90_Status_Other_Error, info))
       \<and> returned_with (rng90_random E numbers s) =
           Some (if unat L = 4 \<and> le16 lo hi = checksum E (L # payload)
                 then (payload ! 0, numbers)
                 else if unat L = 35 \<and> le16 lo hi = checksum E (L # payload)
                 then (RNG90_Status_Success, payload @ drop 32 numbers)
                 else (RNG90_Status_Other_Error, numbers))
       \<and> returned_with (rng90_serial E serial s) =
           Some (if unat L = 4 \<and> le16 lo hi = checksum E (L # payload)
                 then (payload ! 0, serial)
                 else if unat L = 19 \<and> le16 lo hi = checksum E (L # payload)
                 then (RNG90_Status_Success, take 8 payload @ drop 8 serial)
                 else (RNG90_Status_Other_Error, serial))"
proof -
  have ok: "\<And>k. k < 20 \<Longrightarrow> set_result E (tx_count s + 6 + k) = TWI_None"
    using assms(6) by blast
  note i = info_reply [OF assms(1-5), of info]
  note r = random_reply [OF ok assms(1-5), of numbers, OF _ assms(7)]
  note n = serial_reply [OF assms(1-5), of serial, OF assms(8)]
  show ?thesis using i r n by simp
qed

lemma frame_classification_example:
  "returned_with (rng90_info (example_env always_ack (framed [7, 0xA0, 0xD0, 0x01, 0x10]))
       \<lparr>RFU = 0, DeviceID = 0, SiliconID = 0, Revision = 0\<rparr> power_on) =
     Some (RNG90_Status_Success, \<lparr>RFU = 0xA0, DeviceID = 0xD0, SiliconID = 0x01, Revision = 0x10\<rparr>)
   \<and> returned_with (rng90_random (example_env always_ack (framed [7, 0xA0, 0xD0, 0x01, 0x10]))
       (replicate 32 0) power_on) =
     Some (RNG90_Status_Other_Error, replicate 32 0)
   \<and> returned_with (rng90_serial (example_env always_ack (framed [7, 0xA0, 0xD0, 0x01, 0x10]))
       (replicate 8 0) power_on) =
     Some (RNG90_Status_Other_Error, replicate 8 0)"
proof -
  let ?E = "example_env always_ack (framed [7, 0xA0, 0xD0, 0x01, 0x10])"
  let ?c = "crc16_bytes [7, 0xA0, 0xD0, 0x01, 0x10]"
  have r: "replies ?E (rx_count power_on)
       (7 # [0xA0, 0xD0, 0x01, 0x10] @ [ucast ?c, ucast (drop_bit 8 ?c)])"
    using example_replies [of always_ack "framed [7, 0xA0, 0xD0, 0x01, 0x10]"]
    by (simp add: framed_def power_on_simps)
  have v: "le16 (ucast ?c) (ucast (drop_bit 8 ?c)) = checksum ?E [7, 0xA0, 0xD0, 0x01, 0x10]"
    by (simp add: example_env_simps framed_valid)
  show ?thesis
    using frame_classification [OF r, of "replicate 32 0" "replicate 8 0"
        "\<lparr>RFU = 0, DeviceID = 0, SiliconID = 0, Revision = 0\<rparr>"] v
    by (simp add: example_env_simps power_on_simps)
qed

text \<open>
  C10. On a valid standard frame (length 4) with payload byte \<open>b\<close>, \<open>rng90_info\<close>,
  \<open>rng90_random\<close> and \<open>rng90_serial\<close> return \<open>b\<close> itself as the status, for every byte
  \<open>b\<close>: nothing checks that \<open>b\<close> is an enumerator of \<open>RNG90_Status_t\<close>, and a device
  byte \<open>0xF0\<close> or \<open>0xFF\<close> comes back as \<open>RNG90_Status_TWI_Error\<close> or
  \<open>RNG90_Status_Other_Error\<close>.
\<close>

theorem status_byte_passthrough:
  assumes "replies E (rx_count s) [4, b, lo, hi]"
      and "le16 lo hi = checksum E [4, b]"
      and "length (rng90_buffer s) = 87"
      and "\<forall>k<20. set_result E (tx_count s + 6 + k) = TWI_None"
  shows "returned_with (rng90_info E info s) = Some (b, info)
       \<and> returned_with (rng90_random E numbers s) = Some (b, numbers)
       \<and> returned_with (rng90_serial E serial s) = Some (b, serial)"
proof -
  have ok: "\<And>k. k < 20 \<Longrightarrow> set_result E (tx_count s + 6 + k) = TWI_None"
    using assms(4) by blast
  have r: "replies E (rx_count s) (4 # [b] @ [lo, hi])" using assms(1) by simp
  have L: "2 \<le> unat (4 :: byte)" "unat (4 :: byte) \<le> 90" "length [b] = unat (4 :: byte) - 3"
    by simp_all
  note i = info_reply [OF r L assms(3), of info]
  note n = random_reply [OF ok r L assms(3), of numbers]
  note e = serial_reply [OF r L assms(3), of serial]
  show ?thesis using i n e assms(2) by simp
qed

theorem status_byte_passthrough_witness:
  "returned_with (rng90_info (example_env always_ack (framed [4, 0x01]))
       \<lparr>RFU = 0, DeviceID = 0, SiliconID = 0, Revision = 0\<rparr> power_on)
     = Some (0x01, \<lparr>RFU = 0, DeviceID = 0, SiliconID = 0, Revision = 0\<rparr>)
   \<and> 0x01 \<notin> set RNG90_Status_enumerators
   \<and> returned_with (rng90_serial (example_env always_ack (framed [4, 0xF0]))
       (replicate 8 0) power_on)
     = Some (RNG90_Status_TWI_Error, replicate 8 0)
   \<and> returned_with (rng90_random (example_env always_ack (framed [4, 0xFF]))
       (replicate 32 0) power_on)
     = Some (RNG90_Status_Other_Error, replicate 32 0)"
proof -
  have r: "replies (example_env always_ack (framed [4, x])) (rx_count power_on)
       [4, x, ucast (crc16_bytes [4, x]), ucast (drop_bit 8 (crc16_bytes [4, x]))]" for x
    using example_replies [of always_ack "framed [4, x]"]
    by (simp add: framed_def power_on_simps)
  have v: "le16 (ucast (crc16_bytes [4, x])) (ucast (drop_bit 8 (crc16_bytes [4, x])))
       = checksum (example_env always_ack (framed [4, x])) [4, x]" for x
    by (simp add: example_env_simps framed_valid)
  have b: "length (rng90_buffer power_on) = 87" by (simp add: power_on_simps)
  have w: "\<forall>k<20. set_result (example_env always_ack (framed [4, x]))
      (tx_count power_on + 6 + k) = TWI_None" for x
    by (simp add: example_env_simps)
  note p = status_byte_passthrough [OF r v b w]
  have "(0x01 :: byte) \<notin> set RNG90_Status_enumerators"
    by (simp add: RNG90_Status_enumerators_def rng90_status_codes)
  then show ?thesis
    using p [of "0x01" "\<lparr>RFU = 0, DeviceID = 0, SiliconID = 0, Revision = 0\<rparr>"
              "replicate 32 0" "replicate 8 0"]
      p [of "0xF0" "\<lparr>RFU = 0, DeviceID = 0, SiliconID = 0, Revision = 0\<rparr>"
              "replicate 32 0" "replicate 8 0"]
      p [of "0xFF" "\<lparr>RFU = 0, DeviceID = 0, SiliconID = 0, Revision = 0\<rparr>"
              "replicate 32 0" "replicate 8 0"]
    by (simp add: RNG90_Status_TWI_Error_def RNG90_Status_Other_Error_def)
qed

subsection \<open>Lengths that the buffer cannot hold\<close>

lemma loop_overrun:
  assumes "n = length data - (unat i - 1)"
      and "1 \<le> unat i" and "unat i - 1 \<le> length data" and "length data < 255"
      and "length data + 1 <
             (unat (length_f (rng90_frame s)) + 4294967296 - RNG90_CRC_SIZE) mod 4294967296"
  shows "rng90_data_loop E i data s = Some (Inl (Buffer_Overrun (length data)))"
  using assms
proof (induction n arbitrary: i data s)
  case 0
  then have idx: "unat i - 1 = length data" by simp
  have i0: "i \<noteq> 0" using "0.prems"(2) by auto
  have c: "unat i < (unat (length_f (rng90_frame s)) + 4294967296 - RNG90_CRC_SIZE) mod 4294967296"
    using "0.prems" by arith
  show ?case
    using idx c i0 by (subst rng90_data_loop.simps) (simp add: Let_def)
next
  case (Suc n)
  then have idx: "unat i - 1 < length data" by arith
  have i0: "i \<noteq> 0" using Suc.prems(2) by auto
  have i255: "unat i < 255" using idx Suc.prems(4) by arith
  have c: "unat i < (unat (length_f (rng90_frame s)) + 4294967296 - RNG90_CRC_SIZE) mod 4294967296"
    using Suc.prems by arith
  let ?b = "get_byte E (rx_count s)"
  let ?s = "crc16_update E ?b (snd (twi_get E TWI_ACK s))"
  have frame: "rng90_frame ?s = rng90_frame s"
    by (simp add: crc16_update_def twi_get_def)
  have step: "rng90_data_loop E i data s = rng90_data_loop E (i + 1) (data[unat i - 1 := ?b]) ?s"
    using idx c i0 by (subst rng90_data_loop.simps) (simp add: Let_def twi_get_def)
  have "rng90_data_loop E (i + 1) (data[unat i - 1 := ?b]) ?s =
      Some (Inl (Buffer_Overrun (length (data[unat i - 1 := ?b]))))"
    apply (rule Suc.IH)
    using Suc.prems i255 idx by (simp_all add: frame unat_byte_Suc)
  then show ?case by (simp add: step)
qed

lemma rng90_data_overrun_any:
  assumes L: "get_byte E (rx_count s) = L"
      and bad: "unat L < 2 \<or> length data + 4 \<le> unat L"
      and small: "length data < 255"
  shows "rng90_data E data s = Some (Inl (Buffer_Overrun (length data)))"
proof -
  let ?s0 = "twi_address RNG90_ADDRESS TWI_Read (twi_start
      ((crc16_init E s)\<lparr>rng90_frame := (rng90_frame (crc16_init E s))\<lparr>length_f := 3,
          status := RNG90_Data_Status_Invalid\<rparr>\<rparr>))"
  let ?s1 = "(crc16_update E L (snd (twi_get E TWI_ACK ?s0)))
                \<lparr>rng90_frame := (rng90_frame ?s0)\<lparr>length_f := L\<rparr>\<rparr>"
  have first: "rng90_data_loop E 0 data ?s0 = rng90_data_loop E 1 data ?s1"
    apply (subst rng90_data_loop.simps)
    apply (simp add: twi_address_def twi_start_def crc16_init_def twi_get_def crc16_update_def
        RNG90_CRC_SIZE_def L)
    done
  have bound: "length data + 1 <
      (unat (length_f (rng90_frame ?s1)) + 4294967296 - RNG90_CRC_SIZE) mod 4294967296"
  proof (cases "unat L < 2")
    case True
    then show ?thesis using small by (simp add: bound_wrap)
  next
    case False
    then have "2 \<le> unat L" by simp
    then show ?thesis using bad False by (simp add: bound_nowrap unat_byte_less)
  qed
  have "rng90_data_loop E 1 data ?s1 = Some (Inl (Buffer_Overrun (length data)))"
    by (rule loop_overrun [OF refl _ _ small bound]) simp_all
  then show ?thesis
    unfolding rng90_data_def Let_def
    by (simp add: first [simplified] RNG90_CRC_SIZE_def)
qed


text \<open>
  C9. The payload stores of \<open>rng90_data\<close> do not stay inside the 87 bytes of
  \<open>rng90_buffer\<close> for every length byte. When the device reports a length of 91 or
  more, the loop stores payload byte 88 at index 87; when it reports a length below 2,
  the bound \<open>length - 2UL\<close> wraps around to more than \<open>2 ^ 32 - 3\<close>, the loop runs on
  and makes the same store. The receive step, and with it \<open>rng90_selftest\<close>,
  \<open>rng90_info\<close> and \<open>rng90_serial\<close>, ends in the fault \<open>Buffer_Overrun 87\<close>. (Lengths
  from 2 to 90 are safe: see \<open>rng90_data_reply\<close>.)
\<close>

theorem receive_buffer_overrun:
  assumes "length (rng90_buffer s) = 87"
      and "get_byte E (rx_count s) = L"
      and "unat L < 2 \<or> 91 \<le> unat L"
  shows "rng90_data E (rng90_buffer s) s = Some (Inl (Buffer_Overrun 87))
       \<and> rng90_selftest E t s = Some (Inl (Buffer_Overrun 87))
       \<and> rng90_info E info s = Some (Inl (Buffer_Overrun 87))
       \<and> rng90_serial E serial s = Some (Inl (Buffer_Overrun 87))"
proof -
  have D: "rng90_data E (rng90_buffer s) s' = Some (Inl (Buffer_Overrun 87))"
    if "rx_count s' = rx_count s" for s'
    using rng90_data_overrun_any [of E s' L "rng90_buffer s"] assms that by simp
  have "rng90_data E (rng90_buffer s) s = Some (Inl (Buffer_Overrun 87))"
    by (rule D) simp
  moreover have "rng90_selftest E t s = Some (Inl (Buffer_Overrun 87))"
    unfolding rng90_selftest_def Let_def
    by (simp add: D command_keeps wait_keeps)
  moreover have "rng90_info E info s = Some (Inl (Buffer_Overrun 87))"
    unfolding rng90_info_def Let_def
    by (simp add: D command_keeps wait_keeps)
  moreover have "rng90_serial E serial s = Some (Inl (Buffer_Overrun 87))"
    unfolding rng90_serial_def Let_def
    by (simp add: D command_keeps wait_keeps)
  ultimately show ?thesis by blast
qed

theorem receive_buffer_overrun_witness:
  "rng90_info (example_env always_ack [])
      \<lparr>RFU = 0, DeviceID = 0, SiliconID = 0, Revision = 0\<rparr> power_on
     = Some (Inl (Buffer_Overrun 87))
   \<and> rng90_data (example_env always_ack [0x00]) (rng90_buffer power_on) power_on
     = Some (Inl (Buffer_Overrun 87))"
proof -
  have b: "length (rng90_buffer power_on) = 87" by (simp add: power_on_simps)
  have idle: "get_byte (example_env always_ack []) (rx_count power_on) = 0xFF"
    by (simp add: example_env_simps device_def)
  have zero: "get_byte (example_env always_ack [0x00]) (rx_count power_on) = 0x00"
    by (simp add: example_env_simps device_def power_on_simps)
  show ?thesis
    using receive_buffer_overrun [OF b idle] receive_buffer_overrun [OF b zero]
    by simp
qed

text \<open>
  C1. The precedence of the classification is the one of \<open>frame_classification\<close> for
  every frame that the receive step returns, but it does not reach every other case:
  when the length byte is below 2 or above 90 (\<open>0xFF\<close> from an idle bus, 0, 1, or a
  frame of 91 bytes with a correct checksum) \<open>rng90_info\<close>, \<open>rng90_random\<close> and
  \<open>rng90_serial\<close> return no status at all, where their doc comments promise
  \<open>RNG90_Status_Other_Error\<close> for a frame of unexpected length. The receive step stores
  past the end of \<open>rng90_buffer\<close> before anything is classified.
\<close>

theorem wrong_length_not_classified:
  assumes "length (rng90_buffer s) = 87"
      and "get_byte E (rx_count s) = L"
      and "unat L < 2 \<or> 91 \<le> unat L"
      and "\<forall>k<20. set_result E (tx_count s + 6 + k) = TWI_None"
  shows "returned_with (rng90_info E info s) = None
       \<and> returned_with (rng90_random E numbers s) = None
       \<and> returned_with (rng90_serial E serial s) = None
       \<and> rng90_random E numbers s = Some (Inl (Buffer_Overrun 87))"
proof -
  have D: "rng90_data E (rng90_buffer s) s' = Some (Inl (Buffer_Overrun 87))"
    if "rx_count s' = rx_count s" for s'
    using rng90_data_overrun_any [of E s' L "rng90_buffer s"] assms(1-3) that by simp
  have i: "rng90_info E info s = Some (Inl (Buffer_Overrun 87))"
    unfolding rng90_info_def Let_def
    by (simp add: D command_keeps wait_keeps)
  have e: "rng90_serial E serial s = Some (Inl (Buffer_Overrun 87))"
    unfolding rng90_serial_def Let_def
    by (simp add: D command_keeps wait_keeps)
  obtain p s0 where T: "rng90_random_transmit E s = Inr (p, s0)"
    and rx: "rx_count s0 = rx_count s" and b0: "rng90_buffer s0 = rng90_buffer s"
    using transmit_ok [of E s] assms(4) by simp
  have n: "rng90_random E numbers s = Some (Inl (Buffer_Overrun 87))"
    unfolding rng90_random_def
    by (simp add: T Let_def D wait_keeps rx b0)
  show ?thesis using i e n by (simp add: returned_with_def)
qed

theorem wrong_length_not_classified_witness:
  "returned_with (rng90_info (example_env always_ack [])
       \<lparr>RFU = 0, DeviceID = 0, SiliconID = 0, Revision = 0\<rparr> power_on) = None
   \<and> returned_with (rng90_random (example_env always_ack []) (replicate 32 0) power_on) = None
   \<and> returned_with (rng90_serial (example_env always_ack []) (replicate 8 0) power_on) = None"
proof -
  have b: "length (rng90_buffer power_on) = 87" by (simp add: power_on_simps)
  have idle: "get_byte (example_env always_ack []) (rx_count power_on) = 0xFF"
    by (simp add: example_env_simps device_def)
  have w: "\<forall>k<20. set_result (example_env always_ack []) (tx_count power_on + 6 + k) = TWI_None"
    by (simp add: example_env_simps)
  have rng: "unat (0xFF :: byte) < 2 \<or> 91 \<le> unat (0xFF :: byte)" by simp
  show ?thesis
    using wrong_length_not_classified [OF b idle rng w,
        of "\<lparr>RFU = 0, DeviceID = 0, SiliconID = 0, Revision = 0\<rparr>" "replicate 32 0" "replicate 8 0"]
    by blast
qed

text \<open>
  C4. \<open>rng90_data\<close> reads the length byte and then \<open>length - 3\<close> payload bytes, and
  returns the length with the validity, only for the frames of \<open>rng90_data_receives\<close>.
  When the length byte is below 2, or larger than the size of the caller's buffer plus
  3, it stores more bytes than the buffer has and returns nothing: with the 87 bytes
  of \<open>rng90_buffer\<close> that is every length byte outside 2 to 90.
\<close>

theorem rng90_data_wrong_length:
  assumes "get_byte E (rx_count s) = L"
      and "unat L < 2 \<or> length data + 4 \<le> unat L"
      and "length data < 255"
  shows "rng90_data E data s = Some (Inl (Buffer_Overrun (length data)))"
  using assms by (rule rng90_data_overrun_any)

theorem rng90_data_wrong_length_witness:
  "rng90_data (example_env always_ack [0x01]) (replicate 87 0) power_on
     = Some (Inl (Buffer_Overrun 87))
   \<and> rng90_data (example_env always_ack [0x23]) (replicate 16 0) power_on
     = Some (Inl (Buffer_Overrun 16))"
proof -
  have one: "get_byte (example_env always_ack [0x01]) (rx_count power_on) = 0x01"
    and two: "get_byte (example_env always_ack [0x23]) (rx_count power_on) = 0x23"
    by (simp_all add: example_env_simps device_def power_on_simps)
  show ?thesis
    using rng90_data_wrong_length [OF one, of "replicate 87 0"]
      rng90_data_wrong_length [OF two, of "replicate 16 0"]
    by simp
qed

subsection \<open>Bytes on the wire\<close>

lemma sent_append: "sent (xs @ ys) = sent xs @ sent ys"
  by (induction xs rule: sent.induct) simp_all

lemma sent_sets: "sent (map Bus_Set bs) = bs"
  by (induction bs) simp_all

lemma sent_replicate: "sent (replicate n (Bus_Set b)) = replicate n b"
  by (induction n) simp_all

lemma length_header: "length (header p) = 5"
  by (simp add: header_bytes)

lemma command_sent:
  "sent (trace (snd (rng90_command E p s))) =
     sent (trace s) @ RNG90_EXECUTE_COMMAND # wire_frame (fst (rng90_command E p s)) []"
  by (simp add: rng90_command_effect sent_append sent_sets wire_frame_def header_bytes)

lemma command_packet:
  "fst (rng90_command E p s) =
     p\<lparr>count := count p + 7, crc := checksum E (header (p\<lparr>count := count p + 7\<rparr>))\<rparr>"
  by (simp add: rng90_command_effect)

text \<open>
  C5. At transmission the count field is 7 plus the number of extra payload bytes:
  \<open>rng90_write\<close> adds 7 to the count the operation preset, which is 0 for
  \<open>rng90_selftest\<close>, \<open>rng90_info\<close> and \<open>rng90_serial\<close> and
  \<open>RNG90_OPERATION_RANDOM_DATA_SIZE\<close> for \<open>rng90_random\<close>. The count is the first byte
  of the frame written after the execute command, and it is the number of bytes of
  that frame: 7, and 27 with the 20 filler bytes.
\<close>

theorem count_at_transmission:
  "count (fst (rng90_command E (rng90_selftest_packet t) s)) = 7
   \<and> count (fst (rng90_command E rng90_info_packet s)) = 7
   \<and> count (fst (rng90_command E rng90_serial_packet s)) = 7
   \<and> count (fst (rng90_write E rng90_random_packet s)) = 7 + 20
   \<and> (\<forall>p. p = rng90_selftest_packet t \<or> p = rng90_info_packet \<or> p = rng90_serial_packet \<longrightarrow>
         sent (trace (snd (rng90_command E p s))) =
           sent (trace s) @ RNG90_EXECUTE_COMMAND # wire_frame (fst (rng90_command E p s)) []
         \<and> hd (wire_frame (fst (rng90_command E p s)) []) = 7
         \<and> length (wire_frame (fst (rng90_command E p s)) []) = 7 + 0)
   \<and> ((\<forall>k<20. set_result E (tx_count s + 6 + k) = TWI_None) \<longrightarrow>
         (\<exists>p s'. rng90_random_transmit E s = Inr (p, s')
            \<and> count p = 7 + 20
            \<and> sent (trace s') = sent (trace s) @ RNG90_EXECUTE_COMMAND
                  # wire_frame p (replicate 20 RNG90_OPERATION_RANDOM_DATA)
            \<and> hd (wire_frame p (replicate 20 RNG90_OPERATION_RANDOM_DATA)) = 7 + 20
            \<and> length (wire_frame p (replicate 20 RNG90_OPERATION_RANDOM_DATA)) = 7 + 20))"
proof -
  have c: "count (fst (rng90_command E (rng90_selftest_packet t) s)) = 7"
    "count (fst (rng90_command E rng90_info_packet s)) = 7"
    "count (fst (rng90_command E rng90_serial_packet s)) = 7"
    by (simp_all add: command_packet rng90_selftest_packet_def rng90_info_packet_def
        rng90_serial_packet_def)
  have r: "count (fst (rng90_write E rng90_random_packet s)) = 7 + 20"
    by (simp add: rng90_write_effect rng90_random_packet_def RNG90_OPERATION_RANDOM_DATA_SIZE_def)
  have w: "sent (trace (snd (rng90_command E p s))) =
           sent (trace s) @ RNG90_EXECUTE_COMMAND # wire_frame (fst (rng90_command E p s)) []
         \<and> hd (wire_frame (fst (rng90_command E p s)) []) = 7
         \<and> length (wire_frame (fst (rng90_command E p s)) []) = 7 + 0"
    if "count p = 0" for p
    using that by (simp add: command_sent) (simp add: command_packet wire_frame_def header_bytes)
  have three: "\<forall>p. p = rng90_selftest_packet t \<or> p = rng90_info_packet \<or> p = rng90_serial_packet \<longrightarrow>
         sent (trace (snd (rng90_command E p s))) =
           sent (trace s) @ RNG90_EXECUTE_COMMAND # wire_frame (fst (rng90_command E p s)) []
         \<and> hd (wire_frame (fst (rng90_command E p s)) []) = 7
         \<and> length (wire_frame (fst (rng90_command E p s)) []) = 7 + 0"
    using w by (auto simp add: rng90_selftest_packet_def rng90_info_packet_def
        rng90_serial_packet_def simp del: One_nat_def)
  have rnd: "\<exists>p s'. rng90_random_transmit E s = Inr (p, s')
            \<and> count p = 7 + 20
            \<and> sent (trace s') = sent (trace s) @ RNG90_EXECUTE_COMMAND
                  # wire_frame p (replicate 20 RNG90_OPERATION_RANDOM_DATA)
            \<and> hd (wire_frame p (replicate 20 RNG90_OPERATION_RANDOM_DATA)) = 7 + 20
            \<and> length (wire_frame p (replicate 20 RNG90_OPERATION_RANDOM_DATA)) = 7 + 20"
    if ok: "\<forall>k<20. set_result E (tx_count s + 6 + k) = TWI_None"
  proof -
    have ok': "\<And>k. k < 20 \<Longrightarrow> set_result E (tx_count s + 6 + k) = TWI_None"
      using ok by blast
    show ?thesis
      apply (rule exI, rule exI, rule conjI, rule transmit_ok [of E s])
       apply (simp add: ok')
      apply (simp add: sent_append sent_sets sent_replicate wire_frame_def header_bytes)
      done
  qed
  show ?thesis using c r three rnd by blast
qed

theorem count_at_transmission_witness:
  "\<exists>p s'. rng90_random_transmit (example_env always_ack []) power_on = Inr (p, s')
      \<and> count p = 27
      \<and> sent (trace s') = RNG90_EXECUTE_COMMAND
            # wire_frame p (replicate 20 RNG90_OPERATION_RANDOM_DATA)
      \<and> hd (wire_frame p (replicate 20 RNG90_OPERATION_RANDOM_DATA)) = 27
      \<and> length (wire_frame p (replicate 20 RNG90_OPERATION_RANDOM_DATA)) = 27"
proof -
  have ok: "\<forall>k<20. set_result (example_env always_ack []) (tx_count power_on + 6 + k) = TWI_None"
    by (simp add: example_env_simps)
  show ?thesis
    using count_at_transmission [of "example_env always_ack []" RNG90_Run_DRBG_SelfTest power_on] ok
    by (simp add: power_on_simps)
qed

subsection \<open>Loopback\<close>









subsection \<open>Write results\<close>

lemma acks_simps:
  "twi_get (E\<lparr>set_result := f\<rparr>) a s = twi_get E a s"
  "crc16_update (E\<lparr>set_result := f\<rparr>) b s = crc16_update E b s"
  "crc16_init (E\<lparr>set_result := f\<rparr>) s = crc16_init E s"
  "crc16_result (E\<lparr>set_result := f\<rparr>) s = crc16_result E s"
  "checksum (E\<lparr>set_result := f\<rparr>) bs = checksum E bs"
  by (simp_all add: twi_get_def crc16_update_def crc16_init_def crc16_result_def checksum_def)

lemma loop_acks_Some:
  assumes run: "rng90_data_loop E i data s = Some y"
  shows "rng90_data_loop (E\<lparr>set_result := f\<rparr>) i data s = Some y"
proof (rule rng90_data_loop.raw_induct
    [where P = "\<lambda>E i data s y. rng90_data_loop (E\<lparr>set_result := f\<rparr>) i data s = Some y",
      OF _ run])
  fix loop E i data s y
  assume IH: "\<And>E i data s y. loop E i data s = Some y \<Longrightarrow>
      rng90_data_loop (E\<lparr>set_result := f\<rparr>) i data s = Some y"
    and body: "(if unat i < (unat (length_f (rng90_frame s)) + 2 ^ 32 - RNG90_CRC_SIZE) mod 2 ^ 32
      then let temp = fst (twi_get E TWI_ACK s);
               s = snd (twi_get E TWI_ACK s); s = crc16_update E temp s
           in if i = 0
              then loop E (i + 1) data (s\<lparr>rng90_frame := rng90_frame s\<lparr>length_f := temp\<rparr>\<rparr>)
              else if unat i - 1 < length data
                   then loop E (i + 1) (data[unat i - 1 := temp]) s
                   else Some (Inl (Buffer_Overrun (unat i - 1)))
      else Some (Inr (data, s))) = Some y"
  show "rng90_data_loop (E\<lparr>set_result := f\<rparr>) i data s = Some y"
    apply (subst rng90_data_loop.simps)
    using body
    apply (auto simp add: acks_simps Let_def split: if_splits intro: IH)
    done
qed

lemma loop_acks: "rng90_data_loop (E\<lparr>set_result := f\<rparr>) i data s = rng90_data_loop E i data s"
proof (cases "rng90_data_loop E i data s")
  case (Some y)
  then show ?thesis by (simp add: loop_acks_Some)
next
  case None
  show ?thesis
  proof (cases "rng90_data_loop (E\<lparr>set_result := f\<rparr>) i data s")
    case None
    then show ?thesis using \<open>rng90_data_loop E i data s = None\<close> by simp
  next
    case (Some y)
    from loop_acks_Some [OF this, of "set_result E"]
    have "rng90_data_loop E i data s = Some y" by simp
    then show ?thesis using None by simp
  qed
qed

lemma rng90_data_acks: "rng90_data (E\<lparr>set_result := f\<rparr>) data s = rng90_data E data s"
  by (simp add: rng90_data_def acks_simps loop_acks Let_def
      cong: option.case_cong sum.case_cong prod.case_cong)

lemma rng90_command_acks: "rng90_command (E\<lparr>set_result := f\<rparr>) p s = rng90_command E p s"
  by (simp add: rng90_command_effect acks_simps)

lemma ops_acks:
  "rng90_selftest (E\<lparr>set_result := f\<rparr>) t s = rng90_selftest E t s"
  "rng90_info (E\<lparr>set_result := f\<rparr>) info s = rng90_info E info s"
  "rng90_serial (E\<lparr>set_result := f\<rparr>) serial s = rng90_serial E serial s"
  "rng90_init (E\<lparr>set_result := f\<rparr>) s = rng90_init E s"
  by (simp_all add: rng90_selftest_def rng90_info_def rng90_serial_def rng90_init_def
      rng90_data_acks rng90_command_acks Let_def
      cong: option.case_cong sum.case_cong prod.case_cong)

lemma random_abort:
  assumes j: "j < 20"
      and ok: "\<forall>k<j. set_result E (tx_count s + 6 + k) = TWI_None"
      and bad: "set_result E (tx_count s + 6 + j) \<noteq> TWI_None"
  shows "rng90_random E numbers s =
     Some (Inr (RNG90_Status_TWI_Error, numbers,
        s\<lparr>tx_count := tx_count s + 7 + j,
            trace := trace s @ Bus_Start # Bus_Address RNG90_ADDRESS TWI_Write
                   # Bus_Set RNG90_EXECUTE_COMMAND
                   # map Bus_Set (header (rng90_random_packet\<lparr>count := 27\<rparr>)
                        @ replicate (Suc j) RNG90_OPERATION_RANDOM_DATA)
                   @ [Bus_Stop],
            crc_running := foldl (crc_step E) (crc_seed E)
                  (header (rng90_random_packet\<lparr>count := 27\<rparr>)
                     @ replicate j RNG90_OPERATION_RANDOM_DATA)\<rparr>))"
proof -
  have T: "rng90_random_transmit E s =
     Inl (s\<lparr>tx_count := tx_count s + 7 + j,
            trace := trace s @ Bus_Start # Bus_Address RNG90_ADDRESS TWI_Write
                   # Bus_Set RNG90_EXECUTE_COMMAND
                   # map Bus_Set (header (rng90_random_packet\<lparr>count := 27\<rparr>)
                        @ replicate (Suc j) RNG90_OPERATION_RANDOM_DATA)
                   @ [Bus_Stop],
            crc_running := foldl (crc_step E) (crc_seed E)
                  (header (rng90_random_packet\<lparr>count := 27\<rparr>)
                     @ replicate j RNG90_OPERATION_RANDOM_DATA)\<rparr>)"
    by (rule transmit_fail [OF j _ bad]) (simp add: ok)
  show ?thesis by (simp add: rng90_random_def T)
qed

lemma random_keeps_numbers:
  "rng90_random E numbers s = Some (Inr (st, numbers', s')) \<Longrightarrow>
   st \<noteq> RNG90_Status_Success \<Longrightarrow> numbers' = numbers"
  by (auto simp add: rng90_random_def Let_def
      split: sum.splits option.splits prod.splits if_splits)

text \<open>
  C6. When a write of a filler byte fails, \<open>rng90_random\<close> returns
  \<open>RNG90_Status_TWI_Error\<close> and the caller's \<open>numbers\<close> buffer is as it was; and on
  every return of \<open>rng90_random\<close> with a status other than \<open>RNG90_Status_Success\<close> the
  buffer is as it was.
\<close>

theorem random_failure_keeps_numbers:
  assumes "j < 20"
      and "\<forall>k<j. set_result E (tx_count s + 6 + k) = TWI_None"
      and "set_result E (tx_count s + 6 + j) \<noteq> TWI_None"
  shows "returned_with (rng90_random E numbers s) = Some (RNG90_Status_TWI_Error, numbers)
       \<and> (\<forall>E' s0 st numbers' s'.
             rng90_random E' numbers s0 = Some (Inr (st, numbers', s'))
             \<and> st \<noteq> RNG90_Status_Success \<longrightarrow> numbers' = numbers)"
  using random_abort [OF assms, of numbers] random_keeps_numbers [of _ numbers]
  by (simp add: returned_with_def) blast

theorem random_failure_keeps_numbers_witness:
  "returned_with (rng90_random (example_env (nack_at 9) []) (replicate 32 0x55) power_on)
     = Some (RNG90_Status_TWI_Error, replicate 32 0x55)"
proof -
  have j: "(3 :: nat) < 20" by simp
  have ok: "\<forall>k<3. set_result (example_env (nack_at 9) []) (tx_count power_on + 6 + k) = TWI_None"
    by (simp add: example_env_simps power_on_simps)
  have bad: "set_result (example_env (nack_at 9) []) (tx_count power_on + 6 + 3) \<noteq> TWI_None"
    by (simp add: example_env_simps power_on_simps)
  show ?thesis
    using random_failure_keeps_numbers [OF j ok bad, of "replicate 32 0x55"] by simp
qed

lemma receive_after_command:
  assumes r: "replies E (rx_count s) (L # payload @ [lo, hi])"
      and L2: "2 \<le> unat L" and len: "length payload = unat L - 3"
      and fit: "length payload \<le> length (rng90_buffer s)"
  shows "\<exists>s'. rng90_data E (rng90_buffer s)
                 (systick_timer_wait_ms t (snd (rng90_command E p s))) =
            Some (Inr (\<lparr>length_f = L,
                        status = (if le16 lo hi = checksum E (L # payload)
                                  then RNG90_Data_Status_Valid
                                  else RNG90_Data_Status_Invalid)\<rparr>,
                       payload @ drop (length payload) (rng90_buffer s), s'))
          \<and> trace s' = trace s @ transaction_trace
                             (wire_frame (fst (rng90_command E p s)) []) t (length payload)
          \<and> tx_count s' = tx_count s + 8
          \<and> rx_count s' = rx_count s + 3 + length payload"
proof -
  let ?s1 = "systick_timer_wait_ms t (snd (rng90_command E p s))"
  have r1: "replies E (rx_count ?s1) (L # payload @ [lo, hi])"
    using r by (simp add: command_keeps wait_keeps)
  have tr: "trace ?s1 = trace s @ [Bus_Start, Bus_Address RNG90_ADDRESS TWI_Write,
                                   Bus_Set RNG90_EXECUTE_COMMAND]
                @ map Bus_Set (wire_frame (fst (rng90_command E p s)) []) @ [Bus_Stop, Wait_ms t]"
    by (simp add: systick_timer_wait_ms_def rng90_command_effect wire_frame_def header_bytes)
  have tx: "tx_count ?s1 = tx_count s + 8"
    by (simp add: systick_timer_wait_ms_def rng90_command_effect)
  have rx: "rx_count ?s1 = rx_count s"
    by (simp add: command_keeps wait_keeps)
  show ?thesis
    using rng90_data_reply [OF r1 L2 len, of "rng90_buffer s"] fit
    by (simp add: tr tx rx transaction_trace_def)
qed

lemma selftest_run:
  assumes r: "replies E (rx_count s) (L # payload @ [lo, hi])"
      and L2: "2 \<le> unat L" and L90: "unat L \<le> 90" and len: "length payload = unat L - 3"
      and buf: "length (rng90_buffer s) = 87"
  shows "\<exists>st s'. rng90_selftest E t s = Some (Inr (st, s'))
          \<and> trace s' = trace s @ transaction_trace
                (wire_frame (fst (rng90_command E (rng90_selftest_packet t) s)) [])
                RNG90_SELFTEST_EXECUTION_TIME_MS (length payload)
          \<and> tx_count s' = tx_count s + 8"
proof -
  have fit: "length payload \<le> length (rng90_buffer s)" using len L90 buf by simp
  from receive_after_command [OF r L2 len fit, of RNG90_SELFTEST_EXECUTION_TIME_MS
      "rng90_selftest_packet t"]
  obtain s' where D: "rng90_data E (rng90_buffer s)
                 (systick_timer_wait_ms RNG90_SELFTEST_EXECUTION_TIME_MS
                    (snd (rng90_command E (rng90_selftest_packet t) s))) =
            Some (Inr (\<lparr>length_f = L,
                        status = (if le16 lo hi = checksum E (L # payload)
                                  then RNG90_Data_Status_Valid
                                  else RNG90_Data_Status_Invalid)\<rparr>,
                       payload @ drop (length payload) (rng90_buffer s), s'))"
    and tr: "trace s' = trace s @ transaction_trace
                (wire_frame (fst (rng90_command E (rng90_selftest_packet t) s)) [])
                RNG90_SELFTEST_EXECUTION_TIME_MS (length payload)"
    and tx: "tx_count s' = tx_count s + 8"
    by blast
  show ?thesis
    unfolding rng90_selftest_def Let_def
    by (simp add: command_keeps wait_keeps D tr tx)
qed

lemma info_run:
  assumes r: "replies E (rx_count s) (L # payload @ [lo, hi])"
      and L2: "2 \<le> unat L" and L90: "unat L \<le> 90" and len: "length payload = unat L - 3"
      and buf: "length (rng90_buffer s) = 87"
  shows "\<exists>st i s'. rng90_info E info s = Some (Inr (st, i, s'))
          \<and> trace s' = trace s @ transaction_trace
                (wire_frame (fst (rng90_command E rng90_info_packet s)) [])
                RNG90_INFO_EXECUTION_TIME_MS (length payload)
          \<and> tx_count s' = tx_count s + 8"
proof -
  have fit: "length payload \<le> length (rng90_buffer s)" using len L90 buf by simp
  from receive_after_command [OF r L2 len fit, of RNG90_INFO_EXECUTION_TIME_MS rng90_info_packet]
  obtain s' where D: "rng90_data E (rng90_buffer s)
                 (systick_timer_wait_ms RNG90_INFO_EXECUTION_TIME_MS
                    (snd (rng90_command E rng90_info_packet s))) =
            Some (Inr (\<lparr>length_f = L,
                        status = (if le16 lo hi = checksum E (L # payload)
                                  then RNG90_Data_Status_Valid
                                  else RNG90_Data_Status_Invalid)\<rparr>,
                       payload @ drop (length payload) (rng90_buffer s), s'))"
    and tr: "trace s' = trace s @ transaction_trace
                (wire_frame (fst (rng90_command E rng90_info_packet s)) [])
                RNG90_INFO_EXECUTION_TIME_MS (length payload)"
    and tx: "tx_count s' = tx_count s + 8"
    by blast
  show ?thesis
    unfolding rng90_info_def Let_def
    by (simp add: command_keeps wait_keeps D tr tx)
qed

lemma serial_run:
  assumes r: "replies E (rx_count s) (L # payload @ [lo, hi])"
      and L2: "2 \<le> unat L" and L90: "unat L \<le> 90" and len: "length payload = unat L - 3"
      and buf: "length (rng90_buffer s) = 87" and ser: "8 \<le> length serial"
  shows "\<exists>st i s'. rng90_serial E serial s = Some (Inr (st, i, s'))
          \<and> trace s' = trace s @ transaction_trace
                (wire_frame (fst (rng90_command E rng90_serial_packet s)) [])
                RNG90_READ_EXECUTION_TIME_MS (length payload)
          \<and> tx_count s' = tx_count s + 8"
proof -
  have fit: "length payload \<le> length (rng90_buffer s)" using len L90 buf by simp
  from receive_after_command [OF r L2 len fit, of RNG90_READ_EXECUTION_TIME_MS rng90_serial_packet]
  obtain s' where D: "rng90_data E (rng90_buffer s)
                 (systick_timer_wait_ms RNG90_READ_EXECUTION_TIME_MS
                    (snd (rng90_command E rng90_serial_packet s))) =
            Some (Inr (\<lparr>length_f = L,
                        status = (if le16 lo hi = checksum E (L # payload)
                                  then RNG90_Data_Status_Valid
                                  else RNG90_Data_Status_Invalid)\<rparr>,
                       payload @ drop (length payload) (rng90_buffer s), s'))"
    and tr: "trace s' = trace s @ transaction_trace
                (wire_frame (fst (rng90_command E rng90_serial_packet s)) [])
                RNG90_READ_EXECUTION_TIME_MS (length payload)"
    and tx: "tx_count s' = tx_count s + 8"
    by blast
  show ?thesis
    unfolding rng90_serial_def Let_def
    using ser fit buf
    by (simp add: command_keeps wait_keeps D tr tx copy_loop_upt
        RNG90_OPERATION_READ_SERIAL_SIZE_def)
qed

text \<open>
  C2, as the code has it. In \<open>rng90_random\<close>, the first failed write of a filler byte
  ends the operation at once: the bus is stopped, no further filler byte and no
  checksum byte is written, nothing is waited for or read, and the result is
  \<open>RNG90_Status_TWI_Error\<close>. \<open>rng90_selftest\<close>, \<open>rng90_info\<close> and \<open>rng90_serial\<close> do not
  look at the result of any write. Whatever the writes return, they write the execute
  command, the five header bytes and the two checksum bytes, stop the bus, wait the
  settle time, read the frame and return what its classification gives (for every
  frame that the receive buffer holds); and they run and end in the same way under
  any other results of the writes.
\<close>

theorem write_failure_handling:
  "(j < 20 \<and> (\<forall>k<j. set_result E (tx_count s + 6 + k) = TWI_None)
      \<and> set_result E (tx_count s + 6 + j) \<noteq> TWI_None \<longrightarrow>
      (\<exists>s'. rng90_random E numbers s = Some (Inr (RNG90_Status_TWI_Error, numbers, s'))
            \<and> trace s' = trace s @ [Bus_Start, Bus_Address RNG90_ADDRESS TWI_Write,
                                     Bus_Set RNG90_EXECUTE_COMMAND]
                  @ map Bus_Set (header (rng90_random_packet\<lparr>count := 27\<rparr>))
                  @ replicate (Suc j) (Bus_Set RNG90_OPERATION_RANDOM_DATA) @ [Bus_Stop]
            \<and> tx_count s' = tx_count s + 7 + j
            \<and> rx_count s' = rx_count s))
   \<and> (replies E (rx_count s) (L # payload @ [lo, hi])
        \<and> 2 \<le> unat L \<and> unat L \<le> 90 \<and> length payload = unat L - 3
        \<and> length (rng90_buffer s) = 87 \<and> 8 \<le> length serial \<longrightarrow>
        returned (rng90_selftest E t s) =
          Some (if unat L = 4 \<and> le16 lo hi = checksum E (L # payload)
                then payload ! 0 else RNG90_SelfTest_Error)
        \<and> (\<exists>st s'. rng90_selftest E t s = Some (Inr (st, s'))
              \<and> trace s' = trace s @ transaction_trace
                    (wire_frame (fst (rng90_command E (rng90_selftest_packet t) s)) [])
                    RNG90_SELFTEST_EXECUTION_TIME_MS (length payload)
              \<and> tx_count s' = tx_count s + 8)
        \<and> returned_with (rng90_info E info s) =
          Some (if unat L = 4 \<and> le16 lo hi = checksum E (L # payload)
                then (payload ! 0, info)
                else if unat L = 7 \<and> le16 lo hi = checksum E (L # payload)
                then (RNG90_Status_Success,
                      \<lparr>RFU = payload ! 0, DeviceID = payload ! 1,
                       SiliconID = payload ! 2, Revision = payload ! 3\<rparr>)
                else (RNG90_Status_Other_Error, info))
        \<and> (\<exists>st i s'. rng90_info E info s = Some (Inr (st, i, s'))
              \<and> trace s' = trace s @ transaction_trace
                    (wire_frame (fst (rng90_command E rng90_info_packet s)) [])
                    RNG90_INFO_EXECUTION_TIME_MS (length payload)
              \<and> tx_count s' = tx_count s + 8)
        \<and> returned_with (rng90_serial E serial s) =
          Some (if unat L = 4 \<and> le16 lo hi = checksum E (L # payload)
                then (payload ! 0, serial)
                else if unat L = 19 \<and> le16 lo hi = checksum E (L # payload)
                then (RNG90_Status_Success, take 8 payload @ drop 8 serial)
                else (RNG90_Status_Other_Error, serial))
        \<and> (\<exists>st i s'. rng90_serial E serial s = Some (Inr (st, i, s'))
              \<and> trace s' = trace s @ transaction_trace
                    (wire_frame (fst (rng90_command E rng90_serial_packet s)) [])
                    RNG90_READ_EXECUTION_TIME_MS (length payload)
              \<and> tx_count s' = tx_count s + 8))
   \<and> (\<forall>f. rng90_selftest (E\<lparr>set_result := f\<rparr>) t s = rng90_selftest E t s
          \<and> rng90_info (E\<lparr>set_result := f\<rparr>) info s = rng90_info E info s
          \<and> rng90_serial (E\<lparr>set_result := f\<rparr>) serial s = rng90_serial E serial s)"
proof -
  have one: "\<exists>s'. rng90_random E numbers s = Some (Inr (RNG90_Status_TWI_Error, numbers, s'))
            \<and> trace s' = trace s @ [Bus_Start, Bus_Address RNG90_ADDRESS TWI_Write,
                                     Bus_Set RNG90_EXECUTE_COMMAND]
                  @ map Bus_Set (header (rng90_random_packet\<lparr>count := 27\<rparr>))
                  @ replicate (Suc j) (Bus_Set RNG90_OPERATION_RANDOM_DATA) @ [Bus_Stop]
            \<and> tx_count s' = tx_count s + 7 + j
            \<and> rx_count s' = rx_count s"
    if "j < 20" and "\<forall>k<j. set_result E (tx_count s + 6 + k) = TWI_None"
      and "set_result E (tx_count s + 6 + j) \<noteq> TWI_None"
    using random_abort [OF that, of numbers] by (simp add: map_replicate)
  have two: "returned (rng90_selftest E t s) =
          Some (if unat L = 4 \<and> le16 lo hi = checksum E (L # payload)
                then payload ! 0 else RNG90_SelfTest_Error)
        \<and> (\<exists>st s'. rng90_selftest E t s = Some (Inr (st, s'))
              \<and> trace s' = trace s @ transaction_trace
                    (wire_frame (fst (rng90_command E (rng90_selftest_packet t) s)) [])
                    RNG90_SELFTEST_EXECUTION_TIME_MS (length payload)
              \<and> tx_count s' = tx_count s + 8)
        \<and> returned_with (rng90_info E info s) =
          Some (if unat L = 4 \<and> le16 lo hi = checksum E (L # payload)
                then (payload ! 0, info)
                else if unat L = 7 \<and> le16 lo hi = checksum E (L # payload)
                then (RNG90_Status_Success,
                      \<lparr>RFU = payload ! 0, DeviceID = payload ! 1,
                       SiliconID = payload ! 2, Revision = payload ! 3\<rparr>)
                else (RNG90_Status_Other_Error, info))
        \<and> (\<exists>st i s'. rng90_info E info s = Some (Inr (st, i, s'))
              \<and> trace s' = trace s @ transaction_trace
                    (wire_frame (fst (rng90_command E rng90_info_packet s)) [])
                    RNG90_INFO_EXECUTION_TIME_MS (length payload)
              \<and> tx_count s' = tx_count s + 8)
        \<and> returned_with (rng90_serial E serial s) =
          Some (if unat L = 4 \<and> le16 lo hi = checksum E (L # payload)
                then (payload ! 0, serial)
                else if unat L = 19 \<and> le16 lo hi = checksum E (L # payload)
                then (RNG90_Status_Success, take 8 payload @ drop 8 serial)
                else (RNG90_Status_Other_Error, serial))
        \<and> (\<exists>st i s'. rng90_serial E serial s = Some (Inr (st, i, s'))
              \<and> trace s' = trace s @ transaction_trace
                    (wire_frame (fst (rng90_command E rng90_serial_packet s)) [])
                    RNG90_READ_EXECUTION_TIME_MS (length payload)
              \<and> tx_count s' = tx_count s + 8)"
    if r: "replies E (rx_count s) (L # payload @ [lo, hi])"
      and L: "2 \<le> unat L" "unat L \<le> 90" "length payload = unat L - 3"
      and b: "length (rng90_buffer s) = 87" and ser: "8 \<le> length serial"
    using selftest_reply [OF r L b, of t] selftest_run [OF r L b, of t]
      info_reply [OF r L b, of info] info_run [OF r L b, of info]
      serial_reply [OF r L b, of serial] serial_run [OF r L b ser] ser
    by simp
  have three: "\<forall>f. rng90_selftest (E\<lparr>set_result := f\<rparr>) t s = rng90_selftest E t s
          \<and> rng90_info (E\<lparr>set_result := f\<rparr>) info s = rng90_info E info s
          \<and> rng90_serial (E\<lparr>set_result := f\<rparr>) serial s = rng90_serial E serial s"
    by (simp add: ops_acks)
  show ?thesis
    apply (intro conjI impI)
    subgoal by (rule one) blast+
    subgoal using two by blast
    subgoal using two by blast
    subgoal using two by blast
    subgoal using two by blast
    subgoal using two by blast
    subgoal using two by blast
    subgoal using three by blast
    done
qed


theorem write_failure_handling_witness:
  "(\<exists>s'. rng90_random (example_env (nack_at 9) []) (replicate 32 0) power_on
            = Some (Inr (RNG90_Status_TWI_Error, replicate 32 0, s'))
        \<and> trace s' = [Bus_Start, Bus_Address RNG90_ADDRESS TWI_Write,
                       Bus_Set RNG90_EXECUTE_COMMAND,
                       Bus_Set 27, Bus_Set RNG90_OPERATION_RANDOM, Bus_Set 0, Bus_Set 0, Bus_Set 0,
                       Bus_Set 0, Bus_Set 0, Bus_Set 0, Bus_Set 0, Bus_Stop]
        \<and> tx_count s' = 10 \<and> rx_count s' = 0)
   \<and> returned_with (rng90_info (example_env never_ack (framed [7, 0xA0, 0xD0, 0x01, 0x10]))
         \<lparr>RFU = 0, DeviceID = 0, SiliconID = 0, Revision = 0\<rparr> power_on)
       = Some (RNG90_Status_Success,
               \<lparr>RFU = 0xA0, DeviceID = 0xD0, SiliconID = 0x01, Revision = 0x10\<rparr>)
   \<and> (\<exists>st i s'. rng90_info (example_env never_ack (framed [7, 0xA0, 0xD0, 0x01, 0x10]))
         \<lparr>RFU = 0, DeviceID = 0, SiliconID = 0, Revision = 0\<rparr> power_on = Some (Inr (st, i, s'))
        \<and> trace s' = [Bus_Start, Bus_Address RNG90_ADDRESS TWI_Write,
                       Bus_Set RNG90_EXECUTE_COMMAND,
                       Bus_Set 7, Bus_Set RNG90_OPERATION_INFO, Bus_Set 0, Bus_Set 0, Bus_Set 0,
                       Bus_Set 0x03, Bus_Set 0x5D, Bus_Stop,
                       Wait_ms RNG90_INFO_EXECUTION_TIME_MS,
                       Bus_Start, Bus_Address RNG90_ADDRESS TWI_Read,
                       Bus_Get TWI_ACK, Bus_Get TWI_ACK, Bus_Get TWI_ACK, Bus_Get TWI_ACK,
                       Bus_Get TWI_ACK, Bus_Get TWI_ACK, Bus_Get TWI_NACK, Bus_Stop]
        \<and> tx_count s' = 8)"
proof -
  have j: "(3 :: nat) < 20" by simp
  have ok: "\<forall>k<3. set_result (example_env (nack_at 9) []) (tx_count power_on + 6 + k) = TWI_None"
    by (simp add: example_env_simps power_on_simps)
  have bad: "set_result (example_env (nack_at 9) []) (tx_count power_on + 6 + 3) \<noteq> TWI_None"
    by (simp add: example_env_simps power_on_simps)
  have h: "header (rng90_random_packet\<lparr>count := 27\<rparr>) = [27, RNG90_OPERATION_RANDOM, 0, 0, 0]"
    by (simp add: header_bytes rng90_random_packet_def RNG90_OPERATION_RANDOM_PARAM1_def
        RNG90_OPERATION_RANDOM_PARAM2_def)
  have first: "\<exists>s'. rng90_random (example_env (nack_at 9) []) (replicate 32 0) power_on
            = Some (Inr (RNG90_Status_TWI_Error, replicate 32 0, s'))
        \<and> trace s' = [Bus_Start, Bus_Address RNG90_ADDRESS TWI_Write,
                       Bus_Set RNG90_EXECUTE_COMMAND,
                       Bus_Set 27, Bus_Set RNG90_OPERATION_RANDOM, Bus_Set 0, Bus_Set 0, Bus_Set 0,
                       Bus_Set 0, Bus_Set 0, Bus_Set 0, Bus_Set 0, Bus_Stop]
        \<and> tx_count s' = 10 \<and> rx_count s' = 0"
    using write_failure_handling [THEN conjunct1, rule_format, OF conjI [OF j conjI [OF ok bad]],
        of "replicate 32 0"]
    by (simp add: power_on_simps h numeral_eq_Suc RNG90_OPERATION_RANDOM_DATA_def)
  let ?E = "example_env never_ack (framed [7, 0xA0, 0xD0, 0x01, 0x10])"
  let ?c = "crc16_bytes [7, 0xA0, 0xD0, 0x01, 0x10]"
  let ?i = "\<lparr>RFU = 0, DeviceID = 0, SiliconID = 0, Revision = 0\<rparr>"
  have r: "replies ?E (rx_count power_on)
       (7 # [0xA0, 0xD0, 0x01, 0x10] @ [ucast ?c, ucast (drop_bit 8 ?c)])"
    using example_replies [of never_ack "framed [7, 0xA0, 0xD0, 0x01, 0x10]"]
    by (simp add: framed_def power_on_simps)
  have v: "le16 (ucast ?c) (ucast (drop_bit 8 ?c)) = checksum ?E [7, 0xA0, 0xD0, 0x01, 0x10]"
    by (simp add: example_env_simps framed_valid)
  have hyp: "replies ?E (rx_count power_on)
       (7 # [0xA0, 0xD0, 0x01, 0x10] @ [ucast ?c, ucast (drop_bit 8 ?c)])
        \<and> 2 \<le> unat (7 :: byte) \<and> unat (7 :: byte) \<le> 90
        \<and> length [0xA0, 0xD0, 0x01, 0x10 :: byte] = unat (7 :: byte) - 3
        \<and> length (rng90_buffer power_on) = 87 \<and> 8 \<le> length (replicate 8 (0 :: byte))"
    using r by (simp add: power_on_simps)
  note W = write_failure_handling [THEN conjunct2, THEN conjunct1, rule_format, OF hyp,
      where info = "?i"]
  have crc: "crc16_bytes [7, 0x30, 0, 0, 0] = 0x5D03"
    by code_simp
  have frm: "wire_frame (fst (rng90_command ?E rng90_info_packet power_on)) []
      = [7, RNG90_OPERATION_INFO, 0, 0, 0, 0x03, 0x5D]"
    by (simp add: wire_frame_def command_packet header_bytes rng90_info_packet_def
        RNG90_OPERATION_INFO_PARAM1_def RNG90_OPERATION_INFO_PARAM2_def RNG90_OPERATION_INFO_def
        example_env_simps crc)
  have second: "returned_with (rng90_info ?E ?i power_on)
       = Some (RNG90_Status_Success,
               \<lparr>RFU = 0xA0, DeviceID = 0xD0, SiliconID = 0x01, Revision = 0x10\<rparr>)"
    using W [THEN conjunct2, THEN conjunct2, THEN conjunct1] v by simp
  have third: "\<exists>st i s'. rng90_info ?E ?i power_on = Some (Inr (st, i, s'))
        \<and> trace s' = [Bus_Start, Bus_Address RNG90_ADDRESS TWI_Write,
                       Bus_Set RNG90_EXECUTE_COMMAND,
                       Bus_Set 7, Bus_Set RNG90_OPERATION_INFO, Bus_Set 0, Bus_Set 0, Bus_Set 0,
                       Bus_Set 0x03, Bus_Set 0x5D, Bus_Stop,
                       Wait_ms RNG90_INFO_EXECUTION_TIME_MS,
                       Bus_Start, Bus_Address RNG90_ADDRESS TWI_Read,
                       Bus_Get TWI_ACK, Bus_Get TWI_ACK, Bus_Get TWI_ACK, Bus_Get TWI_ACK,
                       Bus_Get TWI_ACK, Bus_Get TWI_ACK, Bus_Get TWI_NACK, Bus_Stop]
        \<and> tx_count s' = 8"
    using W [THEN conjunct2, THEN conjunct2, THEN conjunct2, THEN conjunct1]
    by (simp add: frm transaction_trace_def power_on_simps numeral_eq_Suc)
  show ?thesis using first second third by blast
qed

theorem write_failure_ignored_counterexample:
  "set_result (example_env never_ack (framed [7, 0xA0, 0xD0, 0x01, 0x10])) 0 = TWI_Failure
   \<and> returned_with (rng90_info (example_env never_ack (framed [7, 0xA0, 0xD0, 0x01, 0x10]))
         \<lparr>RFU = 0, DeviceID = 0, SiliconID = 0, Revision = 0\<rparr> power_on)
       = Some (RNG90_Status_Success,
               \<lparr>RFU = 0xA0, DeviceID = 0xD0, SiliconID = 0x01, Revision = 0x10\<rparr>)
   \<and> RNG90_Status_Success \<noteq> RNG90_Status_TWI_Error"
proof -
  let ?E = "example_env never_ack (framed [7, 0xA0, 0xD0, 0x01, 0x10])"
  let ?c = "crc16_bytes [7, 0xA0, 0xD0, 0x01, 0x10]"
  have r: "replies ?E (rx_count power_on)
       (7 # [0xA0, 0xD0, 0x01, 0x10] @ [ucast ?c, ucast (drop_bit 8 ?c)])"
    using example_replies [of never_ack "framed [7, 0xA0, 0xD0, 0x01, 0x10]"]
    by (simp add: framed_def power_on_simps)
  have v: "le16 (ucast ?c) (ucast (drop_bit 8 ?c)) = checksum ?E [7, 0xA0, 0xD0, 0x01, 0x10]"
    by (simp add: example_env_simps framed_valid)
  show ?thesis
    using info_reply [OF r, of "\<lparr>RFU = 0, DeviceID = 0, SiliconID = 0, Revision = 0\<rparr>"] v
    by (simp add: example_env_simps power_on_simps RNG90_Status_Success_def
        RNG90_Status_TWI_Error_def)
qed

text \<open>
  C3, as the code has it. A frame whose checksum does not match is never taken for a status
  frame or for data, whatever its declared length (among the lengths the receive
  buffer holds): \<open>rng90_info\<close>, \<open>rng90_random\<close> and \<open>rng90_serial\<close> return
  \<open>RNG90_Status_Other_Error\<close> and leave the caller's object alone, \<open>rng90_selftest\<close>
  returns its own generic code \<open>RNG90_SelfTest_Error\<close>, and \<open>rng90_init\<close> returns
  \<open>RNG90_Status_SelfTest_Error\<close>, not the other/communication error.
\<close>

theorem invalid_frame_rejected:
  assumes "replies E (rx_count s) (L # payload @ [lo, hi])"
      and "2 \<le> unat L" and "unat L \<le> 90" and "length payload = unat L - 3"
      and "length (rng90_buffer s) = 87"
      and "le16 lo hi \<noteq> checksum E (L # payload)"
      and "\<forall>k<20. set_result E (tx_count s + 6 + k) = TWI_None"
  shows "returned_with (rng90_info E info s) = Some (RNG90_Status_Other_Error, info)
       \<and> returned_with (rng90_random E numbers s) = Some (RNG90_Status_Other_Error, numbers)
       \<and> returned_with (rng90_serial E serial s) = Some (RNG90_Status_Other_Error, serial)
       \<and> returned (rng90_selftest E t s) = Some RNG90_SelfTest_Error
       \<and> returned (rng90_init E s) = Some RNG90_Status_SelfTest_Error"
proof -
  have ok: "\<And>k. k < 20 \<Longrightarrow> set_result E (tx_count s + 6 + k) = TWI_None"
    using assms(7) by blast
  note i = info_reply [OF assms(1-5), of info]
  note n = random_reply [OF ok assms(1-5), of numbers]
  note e = serial_reply [OF assms(1-5), of serial]
  note t = selftest_reply [OF assms(1-5)]
  have "returned (rng90_init E s) = Some RNG90_Status_SelfTest_Error"
    using t [of RNG90_Run_DRBG_SelfTest] assms(6)
    by (simp add: init_of_selftest RNG90_SelfTest_Error_def RNG90_SelfTest_Success_def)
  then show ?thesis using i n e t [of t] assms(6) by simp
qed

theorem invalid_frame_rejected_witness:
  "returned_with (rng90_info (example_env always_ack [7, 0xA0, 0xD0, 0x01, 0x10, 0x34, 0x12])
       \<lparr>RFU = 0, DeviceID = 0, SiliconID = 0, Revision = 0\<rparr> power_on)
     = Some (RNG90_Status_Other_Error, \<lparr>RFU = 0, DeviceID = 0, SiliconID = 0, Revision = 0\<rparr>)
   \<and> returned (rng90_selftest (example_env always_ack [7, 0xA0, 0xD0, 0x01, 0x10, 0x34, 0x12])
       RNG90_Run_SHA256_SelfTest power_on) = Some RNG90_SelfTest_Error"
proof -
  let ?E = "example_env always_ack [7, 0xA0, 0xD0, 0x01, 0x10, 0x34, 0x12]"
  have r: "replies ?E (rx_count power_on) (7 # [0xA0, 0xD0, 0x01, 0x10] @ [0x34, 0x12])"
    using example_replies [of always_ack "[7, 0xA0, 0xD0, 0x01, 0x10, 0x34, 0x12]"]
    by (simp add: power_on_simps)
  have c: "crc16_bytes [7, 0xA0, 0xD0, 0x01, 0x10] \<noteq> 0x1234"
    by code_simp
  have v: "le16 0x34 0x12 \<noteq> checksum ?E (7 # [0xA0, 0xD0, 0x01, 0x10])"
    using c by (simp add: example_env_simps le16_def)
  have L: "2 \<le> unat (7 :: byte)" "unat (7 :: byte) \<le> 90"
    "length [0xA0, 0xD0, 0x01, 0x10 :: byte] = unat (7 :: byte) - 3"
    by simp_all
  have b: "length (rng90_buffer power_on) = 87" by (simp add: power_on_simps)
  have w: "\<forall>k<20. set_result ?E (tx_count power_on + 6 + k) = TWI_None"
    by (simp add: example_env_simps)
  show ?thesis
    using invalid_frame_rejected [OF r L b v w,
        of "\<lparr>RFU = 0, DeviceID = 0, SiliconID = 0, Revision = 0\<rparr>" "[]" "[]"
           RNG90_Run_SHA256_SelfTest]
    by simp
qed

theorem invalid_frame_init_counterexample:
  "le16 0x00 0x00 \<noteq> checksum (example_env always_ack [4, 0x00, 0x00, 0x00]) [4, 0x00]
   \<and> returned (rng90_init (example_env always_ack [4, 0x00, 0x00, 0x00]) power_on)
       = Some RNG90_Status_SelfTest_Error
   \<and> RNG90_Status_SelfTest_Error \<noteq> RNG90_Status_Other_Error"
proof -
  let ?E = "example_env always_ack [4, 0x00, 0x00, 0x00]"
  have r: "replies ?E (rx_count power_on) (4 # [0x00] @ [0x00, 0x00])"
    using example_replies [of always_ack "[4, 0x00, 0x00, 0x00]"]
    by (simp add: power_on_simps)
  have c: "crc16_bytes [4, 0x00] \<noteq> 0"
    by code_simp
  have v: "le16 0x00 0x00 \<noteq> checksum ?E [4, 0x00]"
    using c by (simp add: example_env_simps le16_def)
  have L: "2 \<le> unat (4 :: byte)" "unat (4 :: byte) \<le> 90"
    "length [0x00 :: byte] = unat (4 :: byte) - 3"
    by simp_all
  have b: "length (rng90_buffer power_on) = 87" by (simp add: power_on_simps)
  have "returned (rng90_selftest ?E RNG90_Run_DRBG_SelfTest power_on) = Some RNG90_SelfTest_Error"
    using selftest_reply [OF r L b, of RNG90_Run_DRBG_SelfTest] v by simp
  then have "returned (rng90_init ?E power_on) = Some RNG90_Status_SelfTest_Error"
    by (simp add: init_of_selftest RNG90_SelfTest_Error_def RNG90_SelfTest_Success_def)
  then show ?thesis
    using v by (simp add: RNG90_Status_SelfTest_Error_def RNG90_Status_Other_Error_def)
qed

end
